theory Spec2Isabelle
  imports Complex_Main "HOL-Library.Word"
begin

section \<open>Audio worklet: Float32 samples to Int16 PCM\<close>

text \<open>
  \<^verbatim>\<open>_floatTo16BitPCM\<close> of the audio worklet processor reads a \<^verbatim>\<open>Float32Array\<close> and
  stores into an \<^verbatim>\<open>Int16Array\<close>. A Float32 element read in JavaScript is a finite
  binary fraction, an infinity or NaN. Finite values are modelled by the rationals: a
  Float32 has a 24-bit significand and both scale factors fit in 16 bits, so the double
  precision product \<^verbatim>\<open>s * 0x8001\<close> (or \<^verbatim>\<open>s * 0x7fff\<close>) is exact and the rational
  product is the value JavaScript computes.
\<close>

datatype jsnum = Num rat | NaN | Infinity | NegInfinity

text \<open>\<^verbatim>\<open>Math.min\<close> and \<^verbatim>\<open>Math.max\<close>: NaN is contagious.\<close>

fun Math_min :: "jsnum \<Rightarrow> jsnum \<Rightarrow> jsnum" where
  "Math_min NaN y = NaN"
| "Math_min x NaN = NaN"
| "Math_min NegInfinity y = NegInfinity"
| "Math_min x NegInfinity = NegInfinity"
| "Math_min Infinity y = y"
| "Math_min x Infinity = x"
| "Math_min (Num a) (Num b) = Num (min a b)"

fun Math_max :: "jsnum \<Rightarrow> jsnum \<Rightarrow> jsnum" where
  "Math_max NaN y = NaN"
| "Math_max x NaN = NaN"
| "Math_max Infinity y = Infinity"
| "Math_max x Infinity = Infinity"
| "Math_max NegInfinity y = y"
| "Math_max x NegInfinity = x"
| "Math_max (Num a) (Num b) = Num (max a b)"

text \<open>The comparison \<^verbatim>\<open>s < 0\<close>; it is false for NaN.\<close>

fun lt_zero :: "jsnum \<Rightarrow> bool" where
  "lt_zero (Num a) = (a < 0)"
| "lt_zero NegInfinity = True"
| "lt_zero Infinity = False"
| "lt_zero NaN = False"

text \<open>Multiplication by one of the two positive scale constants.\<close>

fun times_const :: "jsnum \<Rightarrow> rat \<Rightarrow> jsnum" where
  "times_const (Num a) k = Num (a * k)"
| "times_const x k = x"

text \<open>
  Storing a number into an \<^verbatim>\<open>Int16Array\<close> applies ToInt16: NaN and the infinities
  become 0, any other value is truncated towards zero and reduced modulo \<open>2 ^ 16\<close>. The
  element is a \<^typ>\<open>16 word\<close>, read back as a signed value by \<^const>\<open>sint\<close>.
\<close>

definition ToIntegerOrInfinity :: "rat \<Rightarrow> int" where
  "ToIntegerOrInfinity q = (if q < 0 then - \<lfloor>- q\<rfloor> else \<lfloor>q\<rfloor>)"

fun ToInt16 :: "jsnum \<Rightarrow> 16 word" where
  "ToInt16 (Num a) = word_of_int (ToIntegerOrInfinity a)"
| "ToInt16 x = 0"

definition floatTo16BitPCM_sample :: "jsnum \<Rightarrow> 16 word" where
  "floatTo16BitPCM_sample x =
     (let s = Math_max (Num (- 1)) (Math_min (Num 1) x)
      in ToInt16 (if lt_zero s then times_const s 0x8001 else times_const s 0x7fff))"

definition floatTo16BitPCM :: "jsnum list \<Rightarrow> 16 word list" where
  "floatTo16BitPCM floatSamples = map floatTo16BitPCM_sample floatSamples"

section \<open>Wire protocol: binary audio frames and control messages\<close>

type_synonym byte = "8 word"

definition SOURCE_MIC :: nat where
  "SOURCE_MIC = 0x01"

definition SOURCE_SPEAKER :: nat where
  "SOURCE_SPEAKER = 0x02"

datatype js_error = TypeError | RangeError | InvalidStateError | DOMException string | Error string

text \<open>
  \<^verbatim>\<open>err.message\<close>. The text of an engine-generated message is not fixed by the
  language; a placeholder stands for it.
\<close>

fun message :: "js_error \<Rightarrow> string" where
  "message (Error m) = m"
| "message (DOMException m) = m"
| "message TypeError = ''TypeError''"
| "message RangeError = ''RangeError''"
| "message InvalidStateError = ''InvalidStateError''"

text \<open>
  A \<^verbatim>\<open>Uint8Array\<close> is a list of bytes. \<^verbatim>\<open>target.set(source, offset)\<close> copies
  \<open>source\<close> into \<open>target\<close> from \<open>offset\<close> on and raises RangeError (\<open>None\<close>) when it
  does not fit. An indexed store converts the number with ToUint8 and is ignored out of
  range, as \<open>xs[i := v]\<close> is.
\<close>

definition uint8_set :: "byte list \<Rightarrow> byte list \<Rightarrow> nat \<Rightarrow> byte list option" where
  "uint8_set target source offset =
     (if offset + length source > length target then None
      else Some (take offset target @ source @ drop (offset + length source) target))"

text \<open>The packet that \<^verbatim>\<open>sendAudioPacket\<close> builds from \<open>sourceId\<close> and the PCM bytes.\<close>

definition sendAudioPacket_packet :: "nat \<Rightarrow> byte list \<Rightarrow> byte list option" where
  "sendAudioPacket_packet sourceId pcm =
     (let packet = replicate (1 + length pcm) (0 :: byte);
          packet = packet[0 := word_of_nat sourceId]
      in uint8_set packet pcm 1)"

datatype control =
    Config nat "string list" string
  | Ping
  | CoachingMode bool
  | GenerateSummary
  | ClientContext string "string list"
  | SetDiscussionPoints "string list"

datatype frame = Text control | Binary "byte list"

section \<open>Client state\<close>

datatype readyState = CONNECTING | OPEN | CLOSING | CLOSED

text \<open>
  A \<^verbatim>\<open>WebSocket\<close> object: its ready state, the frames it has transmitted (in order),
  the arguments of the \<^verbatim>\<open>connectWebSocket\<close> call that created it (its handlers close
  over them) and whether the promise returned by that call is still pending.
\<close>

record socket =
  readyState :: readyState
  sent :: "frame list"
  config_args :: "nat \<times> string list \<times> string"
  promise_pending :: bool

text \<open>What \<^verbatim>\<open>modalBody.innerHTML\<close> is set to.\<close>

datatype modal = Loading | TimedOut | ConnectionLost | SummaryError string | Report

text \<open>
  The globals of \<^verbatim>\<open>app.js\<close> that the capture, connection and summary code reads and
  writes. \<open>sockets\<close> is the heap of WebSocket objects ever created and \<open>websocket\<close> the
  global variable, an index into it or \<^verbatim>\<open>null\<close>. Streams, worklets and the audio
  context are recorded as present or \<^verbatim>\<open>null\<close>; the indicators as active or inactive.
  \<open>modalLog\<close> lists every content assigned to the modal body, latest last. \<open>timers\<close>
  holds the pending summary timeouts as (handle, due time) on the logical clock \<open>now\<close>,
  in milliseconds. Button visibility, the meeting timer display and CSS classes other
  than the two source indicators are left out.
\<close>

record client =
  sockets :: "socket list"
  websocket :: "nat option"
  isListening :: bool
  waitingForSummary :: bool
  hasSpeakerAudio :: bool
  micStream :: bool
  speakerStream :: bool
  audioContext :: bool
  micWorklet :: bool
  speakerWorklet :: bool
  micIndicator :: bool
  speakerIndicator :: bool
  status :: "string \<times> string"
  modalLog :: "modal list"
  summaryTimeout :: "nat option"
  timers :: "(nat \<times> nat) list"
  nextTimer :: nat
  now :: nat
  clientContextId :: "string option"
  discussionPoints :: "string list"

text \<open>
  The state when the script has loaded: \<^verbatim>\<open>loadClientContext\<close> has read the client id
  and the discussion points from the session storage. Timer handles are positive.
\<close>

definition init_client :: "string option \<Rightarrow> string list \<Rightarrow> client" where
  "init_client cid points =
     \<lparr> sockets = [], websocket = None, isListening = False, waitingForSummary = False,
       hasSpeakerAudio = False, micStream = False, speakerStream = False,
       audioContext = False, micWorklet = False, speakerWorklet = False,
       micIndicator = False, speakerIndicator = False, status = (''idle'', ''Ready''),
       modalLog = [], summaryTimeout = None, timers = [], nextTimer = 1, now = 0,
       clientContextId = cid, discussionPoints = points \<rparr>"

definition setStatus :: "string \<Rightarrow> string \<Rightarrow> client \<Rightarrow> client" where
  "setStatus state msg c = c\<lparr>status := (state, msg)\<rparr>"

definition stopAudioCapture :: "client \<Rightarrow> client" where
  "stopAudioCapture c =
     c\<lparr>micWorklet := False, speakerWorklet := False, audioContext := False,
       micStream := False, speakerStream := False, hasSpeakerAudio := False\<rparr>"

definition updateSourceIndicators :: "client \<Rightarrow> client" where
  "updateSourceIndicators c =
     (if isListening c
      then c\<lparr>micIndicator := True, speakerIndicator := hasSpeakerAudio c\<rparr>
      else c\<lparr>micIndicator := False, speakerIndicator := False\<rparr>)"

subsection \<open>Sending\<close>

text \<open>The test \<^verbatim>\<open>websocket && websocket.readyState === WebSocket.OPEN\<close>.\<close>

definition ws_is_open :: "client \<Rightarrow> bool" where
  "ws_is_open c =
     (case websocket c of None \<Rightarrow> False
      | Some i \<Rightarrow> i < length (sockets c) \<and> readyState (sockets c ! i) = OPEN)"

text \<open>
  \<^verbatim>\<open>websocket.send(f)\<close> on the global: TypeError when the global is \<^verbatim>\<open>null\<close>,
  InvalidStateError while the socket is connecting, transmission when it is open, and
  nothing at all once it is closing or closed. The global never refers to a socket
  that has not been created (part of the invariant below), so the last branch is not
  taken.
\<close>

definition transmit :: "nat \<Rightarrow> frame \<Rightarrow> socket list \<Rightarrow> socket list" where
  "transmit i f ss = ss[i := (ss ! i)\<lparr>sent := sent (ss ! i) @ [f]\<rparr>]"

definition websocket_send :: "frame \<Rightarrow> client \<Rightarrow> js_error + client" where
  "websocket_send f c =
     (case websocket c of None \<Rightarrow> Inl TypeError
      | Some i \<Rightarrow>
          if i < length (sockets c) then
            (case readyState (sockets c ! i) of
               CONNECTING \<Rightarrow> Inl InvalidStateError
             | OPEN \<Rightarrow> Inr (c\<lparr>sockets := transmit i f (sockets c)\<rparr>)
             | CLOSING \<Rightarrow> Inr c
             | CLOSED \<Rightarrow> Inr c)
          else Inl TypeError)"

text \<open>
  A handler that sends behind the open test. The send cannot raise there; were it to,
  the handler would stop with the state as it is.
\<close>

definition send_when_open :: "frame \<Rightarrow> client \<Rightarrow> client" where
  "send_when_open f c =
     (if \<not> ws_is_open c then c
      else case websocket_send f c of Inl e \<Rightarrow> c | Inr c' \<Rightarrow> c')"

definition sendAudioPacket :: "nat \<Rightarrow> byte list \<Rightarrow> client \<Rightarrow> client" where
  "sendAudioPacket sourceId pcm c =
     (if \<not> ws_is_open c then c
      else case sendAudioPacket_packet sourceId pcm of
             None \<Rightarrow> c
           | Some packet \<Rightarrow>
               (case websocket_send (Binary packet) c of Inl e \<Rightarrow> c | Inr c' \<Rightarrow> c'))"

text \<open>The body of the ping interval and the change handler of the coaching toggle.\<close>

definition pingTick :: "client \<Rightarrow> client" where
  "pingTick c = send_when_open (Text Ping) c"

definition coachingToggleChanged :: "bool \<Rightarrow> client \<Rightarrow> client" where
  "coachingToggleChanged checked c = send_when_open (Text (CoachingMode checked)) c"

definition sendClientContext :: "client \<Rightarrow> client" where
  "sendClientContext c =
     (if \<not> ws_is_open c then c
      else case clientContextId c of
             Some cid \<Rightarrow> send_when_open (Text (ClientContext cid (discussionPoints c))) c
           | None \<Rightarrow>
               if length (discussionPoints c) > 0
               then send_when_open (Text (SetDiscussionPoints (discussionPoints c))) c
               else c)"

text \<open>
  \<^verbatim>\<open>activateTrackerWithPoints\<close>, as far as this state goes (what it renders is part of
  the tracker state below).
\<close>

definition activateTrackerWithPoints_send :: "string list \<Rightarrow> client \<Rightarrow> client" where
  "activateTrackerWithPoints_send points c =
     (let c = c\<lparr>discussionPoints := points\<rparr>
      in if ws_is_open c then
           (case clientContextId c of
              Some cid \<Rightarrow> send_when_open (Text (ClientContext cid (discussionPoints c))) c
            | None \<Rightarrow> send_when_open (Text (SetDiscussionPoints (discussionPoints c))) c)
         else c)"

subsection \<open>Audio capture\<close>

text \<open>
  What the browser answers during one \<^verbatim>\<open>startAudioCapture\<close>: the two toggles, whether
  \<^verbatim>\<open>getUserMedia\<close> rejects (with which message), what \<^verbatim>\<open>getDisplayMedia\<close> gives (a
  rejection, as when the user cancels the dialog, or a stream with some number of audio
  tracks), the sample rate of the audio context that was created, and whether loading
  the worklet module rejects.
\<close>

datatype display_result = DisplayRejected string | DisplayStream nat

record capture_env =
  simulationToggle_checked :: bool
  systemAudioCheckbox_checked :: bool
  getUserMedia_rejects :: "string option"
  getDisplayMedia_result :: display_result
  audioContext_sampleRate :: nat
  addModule_rejects :: "string option"

type_synonym config = "nat \<times> string list \<times> string"

text \<open>
  \<^verbatim>\<open>startAudioCapture\<close> returns the configuration or raises; either way the globals
  it has written so far stay written, so the state is returned beside the result.
\<close>

definition startAudioCapture :: "capture_env \<Rightarrow> client \<Rightarrow> (js_error + config) \<times> client" where
  "startAudioCapture env c =
     (let isSimulation = simulationToggle_checked env in
      case (if isSimulation then None else getUserMedia_rejects env) of
        Some err \<Rightarrow> (Inl (DOMException err), c)
      | None \<Rightarrow>
         (let c = (if \<not> isSimulation then c\<lparr>micStream := True\<rparr> else c);
              sources = (if \<not> isSimulation then [''mic''] else []);
              c = c\<lparr>hasSpeakerAudio := False\<rparr>;
              (sources, c) =
                (if isSimulation \<or> systemAudioCheckbox_checked env then
                   (case getDisplayMedia_result env of
                      DisplayStream n \<Rightarrow>
                        if n = 0 then (sources, c\<lparr>speakerStream := False\<rparr>)
                        else (sources @ [''speaker''],
                              c\<lparr>speakerStream := True, hasSpeakerAudio := True\<rparr>)
                    | DisplayRejected err \<Rightarrow> (sources, c\<lparr>speakerStream := False\<rparr>))
                 else (sources, c))
          in if isSimulation \<and> \<not> hasSpeakerAudio c then
               (Inl (Error ''Simulation mode requires system audio. Please share audio and try again.''), c)
             else
               (let c = c\<lparr>audioContext := True\<rparr>;
                    sampleRate = audioContext_sampleRate env
                in case addModule_rejects env of
                     Some err \<Rightarrow> (Inl (DOMException err), c)
                   | None \<Rightarrow>
                      (let c = (if \<not> isSimulation \<and> micStream c
                                then c\<lparr>micWorklet := True\<rparr> else c);
                           c = (if hasSpeakerAudio c \<and> speakerStream c
                                then c\<lparr>speakerWorklet := True\<rparr> else c);
                           c = updateSourceIndicators c
                       in (Inr (sampleRate, sources,
                                if isSimulation then ''simulation'' else ''live''), c)))))"

text \<open>The \<^verbatim>\<open>onended\<close> handler of the system audio track.\<close>

definition speakerTrackEnded :: "client \<Rightarrow> client" where
  "speakerTrackEnded c = updateSourceIndicators (c\<lparr>hasSpeakerAudio := False\<rparr>)"

text \<open>
  The \<^verbatim>\<open>onmessage\<close> handlers of the two worklet ports. Each passes the chunk to
  \<^verbatim>\<open>sendAudioPacket\<close> whatever the state of the capture is.
\<close>

definition micWorkletMessage :: "byte list \<Rightarrow> client \<Rightarrow> client" where
  "micWorkletMessage pcm c = sendAudioPacket SOURCE_MIC pcm c"

definition speakerWorkletMessage :: "byte list \<Rightarrow> client \<Rightarrow> client" where
  "speakerWorkletMessage pcm c = sendAudioPacket SOURCE_SPEAKER pcm c"

subsection \<open>Connection and start\<close>

definition connectWebSocket :: "config \<Rightarrow> client \<Rightarrow> client" where
  "connectWebSocket cfg c =
     c\<lparr>sockets := sockets c @
          [\<lparr>readyState = CONNECTING, sent = [], config_args = cfg, promise_pending = True\<rparr>],
       websocket := Some (length (sockets c))\<rparr>"

text \<open>The \<^verbatim>\<open>catch\<close> block of \<^verbatim>\<open>startListening\<close>.\<close>

definition startListening_catch :: "string \<Rightarrow> client \<Rightarrow> client" where
  "startListening_catch msg c =
     stopAudioCapture (setStatus ''error'' (if msg = [] then ''Failed to start'' else msg) c)"

text \<open>
  \<^verbatim>\<open>startListening\<close> up to the point where it awaits the promise of
  \<^verbatim>\<open>connectWebSocket\<close>.
\<close>

definition startListening :: "capture_env \<Rightarrow> client \<Rightarrow> client" where
  "startListening env c =
     (if isListening c then c
      else let c = setStatus ''connecting'' ''Starting...'' c
           in case startAudioCapture env c of
                (Inl e, c) \<Rightarrow> startListening_catch (message e) c
              | (Inr cfg, c) \<Rightarrow> connectWebSocket cfg c)"

text \<open>
  The rest of \<^verbatim>\<open>startListening\<close>, run when the promise is resolved, with the state
  of the coaching and simulation toggles at that moment. The dash in the status texts
  is written as a hyphen.
\<close>

definition startListening_resumed :: "bool \<Rightarrow> bool \<Rightarrow> client \<Rightarrow> client" where
  "startListening_resumed coaching simulation c =
     (let c = c\<lparr>isListening := True\<rparr>;
          c = updateSourceIndicators c
      in case (if coaching then websocket_send (Text (CoachingMode True)) c else Inr c) of
           Inl e \<Rightarrow> startListening_catch (message e) c
         | Inr c \<Rightarrow>
             setStatus ''connected''
               (if simulation then ''Simulation Mode - System Audio''
                else if hasSpeakerAudio c then ''Listening - Mic + System Audio''
                else ''Listening - Mic only'') c)"

text \<open>
  The open event of socket \<open>i\<close>. The browser fires it once, on a connecting socket, in
  the same turn of the event loop that sets the ready state to open; then \<^verbatim>\<open>onopen\<close>
  runs. The handler sends on the global \<^verbatim>\<open>websocket\<close>; if that raises, the handler
  ends there and the promise stays pending. The call of \<^verbatim>\<open>sendClientContext\<close> that it
  schedules is an event of its own.
\<close>

definition onopen :: "nat \<Rightarrow> bool \<Rightarrow> bool \<Rightarrow> client \<Rightarrow> client" where
  "onopen i coaching simulation c =
     (if i < length (sockets c) \<and> readyState (sockets c ! i) = CONNECTING then
        (let (sampleRate, sources, mode) = config_args (sockets c ! i);
             c = c\<lparr>sockets := (sockets c)[i := (sockets c ! i)\<lparr>readyState := OPEN\<rparr>]\<rparr>
         in case websocket_send
                   (Text (Config sampleRate sources (if mode = [] then ''live'' else mode))) c of
              Inl e \<Rightarrow> c
            | Inr c \<Rightarrow>
                if promise_pending (sockets c ! i) then
                  startListening_resumed coaching simulation
                    (c\<lparr>sockets := (sockets c)[i := (sockets c ! i)\<lparr>promise_pending := False\<rparr>]\<rparr>)
                else c)
      else c)"

text \<open>
  The error event of socket \<open>i\<close>: \<^verbatim>\<open>onerror\<close> and, if the promise is pending, the
  catch block of \<^verbatim>\<open>startListening\<close>. The event object has no message.
\<close>

definition onerror :: "nat \<Rightarrow> client \<Rightarrow> client" where
  "onerror i c =
     (if i < length (sockets c) then
        (let c = setStatus ''error'' ''Connection error'' c
         in if promise_pending (sockets c ! i) then
              startListening_catch []
                (c\<lparr>sockets := (sockets c)[i := (sockets c ! i)\<lparr>promise_pending := False\<rparr>]\<rparr>)
            else c)
      else c)"

subsection \<open>Stop, summary and its timeout\<close>

text \<open>\<^verbatim>\<open>websocket.close()\<close>: a connecting or open socket starts closing.\<close>

definition ws_close :: "nat \<Rightarrow> client \<Rightarrow> client" where
  "ws_close i c =
     (if i < length (sockets c) \<and> readyState (sockets c ! i) \<in> {CONNECTING, OPEN}
      then c\<lparr>sockets := (sockets c)[i := (sockets c ! i)\<lparr>readyState := CLOSING\<rparr>]\<rparr>
      else c)"

definition finishStop :: "client \<Rightarrow> client" where
  "finishStop c =
     (let c = stopAudioCapture c;
          c = (case websocket c of None \<Rightarrow> c | Some i \<Rightarrow> (ws_close i c)\<lparr>websocket := None\<rparr>);
          c = c\<lparr>waitingForSummary := False\<rparr>;
          c = updateSourceIndicators c
      in setStatus ''idle'' ''Stopped'' c)"

text \<open>\<^verbatim>\<open>setTimeout\<close> and \<^verbatim>\<open>clearTimeout\<close> for the summary timeout.\<close>

definition setTimeout :: "nat \<Rightarrow> client \<Rightarrow> nat \<times> client" where
  "setTimeout delay c =
     (nextTimer c,
      c\<lparr>timers := timers c @ [(nextTimer c, now c + delay)], nextTimer := nextTimer c + 1\<rparr>)"

definition clearTimeout :: "nat \<Rightarrow> client \<Rightarrow> client" where
  "clearTimeout h c = c\<lparr>timers := filter (\<lambda>t. fst t \<noteq> h) (timers c)\<rparr>"

definition showPostCallModal :: "client \<Rightarrow> client" where
  "showPostCallModal c = c\<lparr>modalLog := modalLog c @ [Loading]\<rparr>"

text \<open>The callback that \<^verbatim>\<open>stopListening\<close> hands to \<^verbatim>\<open>setTimeout\<close>.\<close>

definition summaryTimeoutCallback :: "client \<Rightarrow> client" where
  "summaryTimeoutCallback c =
     (if waitingForSummary c
      then c\<lparr>waitingForSummary := False, modalLog := modalLog c @ [TimedOut]\<rparr>
      else c)"

definition stopListening :: "client \<Rightarrow> client" where
  "stopListening c =
     (if \<not> isListening c then c
      else let c = c\<lparr>isListening := False\<rparr>
           in if ws_is_open c then
                (let c = c\<lparr>waitingForSummary := True\<rparr>
                 in case websocket_send (Text GenerateSummary) c of
                      Inl e \<Rightarrow> c
                    | Inr c \<Rightarrow>
                       (let c = showPostCallModal c;
                            c = setStatus ''connected'' ''Generating summary...'' c;
                            (h, c) = setTimeout 30000 c
                        in c\<lparr>summaryTimeout := Some h\<rparr>))
              else finishStop (stopAudioCapture c))"

text \<open>
  \<^verbatim>\<open>handlePostCallSummary\<close> with the \<^verbatim>\<open>error\<close> field of the message. With an
  error (a non-empty string) the modal shows it; otherwise the tabbed report is
  rendered, which always has the notes tab.
\<close>

fun summary_content :: "string option \<Rightarrow> modal" where
  "summary_content None = Report"
| "summary_content (Some e) = (if e = [] then Report else SummaryError e)"

definition handlePostCallSummary :: "string option \<Rightarrow> client \<Rightarrow> client" where
  "handlePostCallSummary err c =
     (let c = c\<lparr>waitingForSummary := False\<rparr>;
          c = (case summaryTimeout c of
                 None \<Rightarrow> c
               | Some h \<Rightarrow> (clearTimeout h c)\<lparr>summaryTimeout := None\<rparr>)
      in c\<lparr>modalLog := modalLog c @ [summary_content err]\<rparr>)"

text \<open>The close event of socket \<open>i\<close>: the socket is closed, then \<^verbatim>\<open>onclose\<close> runs.\<close>

definition onclose :: "nat \<Rightarrow> client \<Rightarrow> client" where
  "onclose i c =
     (if i < length (sockets c) \<and> readyState (sockets c ! i) \<noteq> CLOSED then
        (let c = c\<lparr>sockets := (sockets c)[i := (sockets c ! i)\<lparr>readyState := CLOSED\<rparr>]\<rparr>
         in if waitingForSummary c then
              stopAudioCapture
                (c\<lparr>waitingForSummary := False, modalLog := modalLog c @ [ConnectionLost]\<rparr>)
            else if isListening c then finishStop (setStatus ''error'' ''Connection lost'' c)
            else c)
      else c)"

definition closePostCallModal :: "client \<Rightarrow> client" where
  "closePostCallModal c = finishStop c"

text \<open>\<^verbatim>\<open>clearAll\<close>, as far as this state goes.\<close>

definition clearAll_client :: "client \<Rightarrow> client" where
  "clearAll_client c = c\<lparr>discussionPoints := [], clientContextId := None\<rparr>"

text \<open>
  Time passes: the clock advances by \<open>d\<close> milliseconds and every pending timer that has
  come due fires, in the order of setting. A fired timer is removed before its callback
  runs; a timer cleared in the meantime does not fire.
\<close>

definition fire :: "nat \<Rightarrow> client \<Rightarrow> client" where
  "fire h c =
     (if h \<in> fst ` set (timers c)
      then summaryTimeoutCallback (c\<lparr>timers := filter (\<lambda>t. fst t \<noteq> h) (timers c)\<rparr>)
      else c)"

definition elapse :: "nat \<Rightarrow> client \<Rightarrow> client" where
  "elapse d c =
     (let c = c\<lparr>now := now c + d\<rparr>
      in fold fire (map fst (filter (\<lambda>t. snd t \<le> now c) (timers c))) c)"

subsection \<open>Events\<close>

text \<open>
  The events that read or write this state, one constructor per handler. \<open>WsOpen\<close>,
  \<open>WsError\<close> and \<open>WsClose\<close> are the events of a socket, \<open>PostCallSummary\<close>,
  \<open>StatusMessage\<close> and \<open>ErrorMessage\<close> messages of the server, \<open>PingTick\<close> a tick of
  the ping interval, \<open>ClientContextTimer\<close> the call of \<^verbatim>\<open>sendClientContext\<close> that
  \<^verbatim>\<open>onopen\<close> schedules, \<open>TrackerActivated\<close> a call of \<^verbatim>\<open>activateTrackerWithPoints\<close>,
  \<open>TrackerPointsAdopted\<close> the assignment to \<^verbatim>\<open>discussionPoints\<close> in
  \<^verbatim>\<open>handleDiscussionTrackerUpdate\<close>, and \<open>Elapse\<close> the passing of time. The environment
  is not restricted: any event may come at any time, also those a browser would not
  deliver then (a click on a hidden button, a message from a stopped worklet), so what
  holds for every event sequence holds for every run in a browser. An event is one run
  of its handler to the end; \<^verbatim>\<open>startListening\<close> is two events, before and after the
  promise of \<^verbatim>\<open>connectWebSocket\<close>, and the awaits inside \<^verbatim>\<open>startAudioCapture\<close> are
  taken in one step, between which the function touches neither the sockets nor the
  timers.
\<close>

datatype event =
    StartClicked capture_env
  | WsOpen nat bool bool
  | WsError nat
  | WsClose nat
  | PostCallSummary "string option"
  | StatusMessage string
  | ErrorMessage string
  | MicWorkletMessage "byte list"
  | SpeakerWorkletMessage "byte list"
  | SpeakerTrackEnded
  | PingTick
  | CoachingToggled bool
  | ClientContextTimer
  | TrackerActivated "string list"
  | TrackerPointsAdopted "string list"
  | StopClicked
  | ModalClosed
  | ClearClicked
  | Elapse nat

fun step :: "event \<Rightarrow> client \<Rightarrow> client" where
  "step (StartClicked env) c = startListening env c"
| "step (WsOpen i coaching simulation) c = onopen i coaching simulation c"
| "step (WsError i) c = onerror i c"
| "step (WsClose i) c = onclose i c"
| "step (PostCallSummary err) c = handlePostCallSummary err c"
| "step (StatusMessage msg) c = setStatus ''connected'' msg c"
| "step (ErrorMessage msg) c = setStatus ''error'' msg c"
| "step (MicWorkletMessage pcm) c = micWorkletMessage pcm c"
| "step (SpeakerWorkletMessage pcm) c = speakerWorkletMessage pcm c"
| "step SpeakerTrackEnded c = speakerTrackEnded c"
| "step PingTick c = pingTick c"
| "step (CoachingToggled checked) c = coachingToggleChanged checked c"
| "step ClientContextTimer c = sendClientContext c"
| "step (TrackerActivated points) c = activateTrackerWithPoints_send points c"
| "step (TrackerPointsAdopted points) c = c\<lparr>discussionPoints := points\<rparr>"
| "step StopClicked c = stopListening c"
| "step ModalClosed c = closePostCallModal c"
| "step ClearClicked c = clearAll_client c"
| "step (Elapse d) c = elapse d c"

definition run :: "event list \<Rightarrow> client \<Rightarrow> client" where
  "run es c = fold step es c"

subsection \<open>What a socket has transmitted\<close>

fun is_config :: "frame \<Rightarrow> bool" where
  "is_config (Text (Config sampleRate sources mode)) = True"
| "is_config f = False"

fun is_binary :: "frame \<Rightarrow> bool" where
  "is_binary (Binary p) = True"
| "is_binary (Text m) = False"

text \<open>The first frame a socket transmitted, if any, is the config message.\<close>

definition config_first :: "socket \<Rightarrow> bool" where
  "config_first s = (case sent s of [] \<Rightarrow> True | f # fs \<Rightarrow> is_config f)"

text \<open>A frame is well tagged: a binary frame begins with the byte 1 or the byte 2.\<close>

fun tagged :: "frame \<Rightarrow> bool" where
  "tagged (Text m) = True"
| "tagged (Binary []) = False"
| "tagged (Binary (b # p)) = (b = 0x01 \<or> b = 0x02)"

definition frames_tagged :: "socket \<Rightarrow> bool" where
  "frames_tagged s = list_all tagged (sent s)"

text \<open>
  The invariant of the socket heap and the global: the global refers to an allocated
  socket; a connecting socket has transmitted nothing; what a socket has transmitted
  begins with the config message and is well tagged; and the socket the global refers
  to, once open, has transmitted something.
\<close>

definition socket_ok :: "nat option \<Rightarrow> nat \<Rightarrow> socket \<Rightarrow> bool" where
  "socket_ok g i s \<longleftrightarrow>
     (readyState s = CONNECTING \<longrightarrow> sent s = []) \<and> config_first s \<and> frames_tagged s \<and>
     (readyState s = OPEN \<and> g = Some i \<longrightarrow> sent s \<noteq> [])"

definition sockets_ok :: "socket list \<Rightarrow> nat option \<Rightarrow> bool" where
  "sockets_ok ss g \<longleftrightarrow>
     (case g of None \<Rightarrow> True | Some i \<Rightarrow> i < length ss) \<and>
     (\<forall>i < length ss. socket_ok g i (ss ! i))"

subsection \<open>A sample session\<close>

text \<open>
  A live session with both sources: capture succeeds with one system audio track, the
  socket opens, and each worklet delivers one chunk of two bytes.
\<close>

definition sample_env :: capture_env where
  "sample_env =
     \<lparr> simulationToggle_checked = False, systemAudioCheckbox_checked = True,
       getUserMedia_rejects = None, getDisplayMedia_result = DisplayStream 1,
       audioContext_sampleRate = 24000, addModule_rejects = None \<rparr>"

definition sample_session :: "event list" where
  "sample_session =
     [StartClicked sample_env, MicWorkletMessage [0x10, 0x00], WsOpen 0 False False,
      MicWorkletMessage [0x34, 0x12], SpeakerWorkletMessage [0xff, 0x7f]]"

text \<open>The same environment, but the user cancels the screen share dialog.\<close>

definition mic_only_env :: capture_env where
  "mic_only_env = sample_env\<lparr>getDisplayMedia_result := DisplayRejected ''Permission denied''\<rparr>"

subsection \<open>The pending timers\<close>

text \<open>
  The part of the state that the timer functions work on, and its invariant: handles are
  distinct and were handed out before; a pending timer is due in the future.
\<close>

definition clock :: "client \<Rightarrow> (nat \<times> nat) list \<times> nat \<times> nat" where
  "clock c = (timers c, nextTimer c, now c)"



subsection \<open>The wait for the summary\<close>

text \<open>The part of the state that records the wait for the summary and what the modal showed.\<close>

definition wait_view :: "client \<Rightarrow> bool \<times> modal list \<times> nat option" where
  "wait_view c = (waitingForSummary c, modalLog c, summaryTimeout c)"







section \<open>Plain objects and sets of the page\<close>

text \<open>
  A plain object literal \<^verbatim>\<open>{}\<close> used as a dictionary inherits the members of
  \<^verbatim>\<open>Object.prototype\<close>: reading a key that is not stored but names such a member gives
  the inherited member, a truthy value that is neither a string nor an element.
\<close>

definition object_prototype_keys :: "string list" where
  "object_prototype_keys =
     [''constructor'', ''__proto__'', ''hasOwnProperty'', ''isPrototypeOf'',
      ''propertyIsEnumerable'', ''toLocaleString'', ''toString'', ''valueOf'',
      ''__defineGetter__'', ''__defineSetter__'', ''__lookupGetter__'', ''__lookupSetter__'']"

datatype 'a property = Undefined | Own 'a | Inherited

definition get_property :: "(string \<rightharpoonup> 'a) \<Rightarrow> string \<Rightarrow> 'a property" where
  "get_property obj key =
     (case obj key of
        Some v \<Rightarrow> Own v
      | None \<Rightarrow> if key \<in> set object_prototype_keys then Inherited else Undefined)"

text \<open>
  A JavaScript \<^verbatim>\<open>Set\<close> of strings keeps its members in insertion order and holds each
  once: a list, to which \<^verbatim>\<open>add\<close> appends only what is not yet there.
\<close>

definition set_add :: "'a \<Rightarrow> 'a list \<Rightarrow> 'a list" where
  "set_add x xs = (if x \<in> set xs then xs else xs @ [x])"

text \<open>Truthiness of an optional string field, and \<^verbatim>\<open>field || ""\<close>.\<close>

fun truthy :: "string option \<Rightarrow> bool" where
  "truthy None = False"
| "truthy (Some s) = (s \<noteq> [])"

fun or_empty :: "string option \<Rightarrow> string" where
  "or_empty None = []"
| "or_empty (Some s) = s"

section \<open>To-do accumulation\<close>

text \<open>
  An accumulated item has a text and a time. \<^verbatim>\<open>knownTodoItems\<close> is a Set of texts,
  \<^verbatim>\<open>accumulatedTodoItems\<close> an array of items.
\<close>

record todo_item =
  todo_text :: string
  todo_time :: string

record todos =
  knownTodoItems :: "string list"
  accumulatedTodoItems :: "todo_item list"

definition init_todos :: todos where
  "init_todos = \<lparr>knownTodoItems = [], accumulatedTodoItems = []\<rparr>"

text \<open>
  \<^verbatim>\<open>handleTodoUpdate\<close> with the \<^verbatim>\<open>items\<close> field of the message (absent is \<open>None\<close>)
  and the time of day that \<^verbatim>\<open>toLocaleTimeString\<close> gives.
\<close>

definition handleTodoUpdate :: "string list option \<Rightarrow> string \<Rightarrow> todos \<Rightarrow> todos" where
  "handleTodoUpdate items time t =
     (case items of
        None \<Rightarrow> t
      | Some items \<Rightarrow>
          if length items = 0 then t
          else let newItems = filter (\<lambda>item. item \<notin> set (knownTodoItems t)) items
               in if length newItems = 0 then t
                  else fold (\<lambda>item t.
                         t\<lparr>knownTodoItems := set_add item (knownTodoItems t),
                           accumulatedTodoItems := accumulatedTodoItems t @
                             [\<lparr>todo_text = item, todo_time = time\<rparr>]\<rparr>) newItems t)"

definition handleTodoUpdates :: "(string list option \<times> string) list \<Rightarrow> todos \<Rightarrow> todos" where
  "handleTodoUpdates msgs t = fold (\<lambda>(items, time). handleTodoUpdate items time) msgs t"

section \<open>Accumulated client profile\<close>

datatype category =
    family | life_events | interests | career
  | key_concerns | referral_opportunities | ms_product_signals | document_triggers

text \<open>
  An \<^verbatim>\<open>intelligence_update\<close> message: \<open>category_items m key\<close> is \<^verbatim>\<open>data[key]\<close>
  for the eight profile keys, an array of strings or absent.
\<close>

record intelligence_update =
  category_items :: "category \<Rightarrow> string list option"
  sentiment :: "string option"
  sentiment_detail :: "string option"
  risk_profile :: "string option"
  risk_detail :: "string option"
  client_tier :: "string option"

text \<open>
  The globals that \<^verbatim>\<open>handleIntelligenceUpdate\<close> writes. The width and label of the risk
  gauge and the text of the sentiment badge are presentation and left out.
\<close>

record profile =
  accumulatedProfile :: "category \<Rightarrow> string list"
  latestSentiment :: string
  latestSentimentDetail :: string
  latestRiskProfile :: string
  latestRiskDetail :: string
  latestClientTier :: string
  intelligenceBar_hidden :: bool

definition init_profile :: profile where
  "init_profile =
     \<lparr>accumulatedProfile = (\<lambda>key. []), latestSentiment = [], latestSentimentDetail = [],
      latestRiskProfile = [], latestRiskDetail = [], latestClientTier = [],
      intelligenceBar_hidden = True\<rparr>"

definition profileKeys :: "category list" where
  "profileKeys = [family, life_events, interests, career, key_concerns,
                  referral_opportunities, ms_product_signals, document_triggers]"

text \<open>The two tests at the head of the handler; an array is truthy even when empty.\<close>

definition hasProfile :: "intelligence_update \<Rightarrow> bool" where
  "hasProfile data =
     list_ex (\<lambda>k. case category_items data k of None \<Rightarrow> False | Some xs \<Rightarrow> length xs > 0)
       [family, life_events, interests, career]"

definition hasIntel :: "intelligence_update \<Rightarrow> bool" where
  "hasIntel data \<longleftrightarrow> truthy (sentiment data) \<or> category_items data key_concerns \<noteq> None"

definition accumulate :: "category \<Rightarrow> string list \<Rightarrow> profile \<Rightarrow> profile" where
  "accumulate key xs p =
     fold (\<lambda>item p. p\<lparr>accumulatedProfile :=
                        (accumulatedProfile p)(key := set_add item (accumulatedProfile p key))\<rparr>) xs p"

text \<open>The body of the loop over \<^verbatim>\<open>profileKeys\<close>.\<close>

definition accumulate_key :: "intelligence_update \<Rightarrow> category \<Rightarrow> profile \<Rightarrow> profile" where
  "accumulate_key data key p =
     (case category_items data key of
        None \<Rightarrow> p
      | Some xs \<Rightarrow> if length xs > 0 then accumulate key xs p else p)"

definition handleIntelligenceUpdate :: "intelligence_update \<Rightarrow> profile \<Rightarrow> profile" where
  "handleIntelligenceUpdate data p =
     (if \<not> hasProfile data \<and> \<not> hasIntel data then p
      else
        let p = p\<lparr>intelligenceBar_hidden := False\<rparr>;
            p = (if truthy (risk_profile data)
                 then p\<lparr>latestRiskProfile := or_empty (risk_profile data),
                        latestRiskDetail := or_empty (risk_detail data)\<rparr>
                 else p);
            p = (if truthy (sentiment data)
                 then p\<lparr>latestSentiment := or_empty (sentiment data),
                        latestSentimentDetail := or_empty (sentiment_detail data)\<rparr>
                 else p);
            p = fold (accumulate_key data) profileKeys p
        in if truthy (client_tier data) \<and> client_tier data \<noteq> Some ''Unknown''
           then p\<lparr>latestClientTier := or_empty (client_tier data)\<rparr>
           else p)"

definition handleIntelligenceUpdates :: "intelligence_update list \<Rightarrow> profile \<Rightarrow> profile" where
  "handleIntelligenceUpdates msgs p = fold handleIntelligenceUpdate msgs p"

text \<open>What a message delivers for a category.\<close>

definition delivered :: "intelligence_update \<Rightarrow> category \<Rightarrow> string list" where
  "delivered data key = (case category_items data key of None \<Rightarrow> [] | Some xs \<Rightarrow> xs)"

text \<open>A message that delivers one referral opportunity and nothing else.\<close>

definition referral_only :: intelligence_update where
  "referral_only =
     \<lparr>category_items =
        (\<lambda>key. None)(referral_opportunities := Some [''Introduce the estate attorney'']),
      sentiment = None, sentiment_detail = None, risk_profile = None, risk_detail = None,
      client_tier = None\<rparr>"

text \<open>A message with family facts, one of them twice, and a sentiment.\<close>

definition family_update :: intelligence_update where
  "family_update =
     \<lparr>category_items =
        (\<lambda>key. None)(family := Some [''Daughter, 14'', ''Spouse: Ana'', ''Daughter, 14'']),
      sentiment = Some ''positive'', sentiment_detail = None, risk_profile = None,
      risk_detail = None, client_tier = None\<rparr>"

section \<open>Discussion tracker display\<close>

text \<open>
  A point of a \<^verbatim>\<open>discussion_tracker_update\<close> message, and the message: its
  \<^verbatim>\<open>points\<close> (absent is \<open>None\<close>) and its \<^verbatim>\<open>nudge\<close>.
\<close>

record point =
  point_text :: string
  point_status :: string
  point_note :: "string option"

record tracker_update =
  update_points :: "point list option"
  update_nudge :: "string option"

text \<open>
  An item as \<^verbatim>\<open>renderDiscussionTracker\<close> writes it: the class \<^verbatim>\<open>tracker-\<close> followed
  by the status, the status icon, the text and the note if there is one. The icon is
  looked up in the object \<^verbatim>\<open>statusIcons\<close>, with the pending icon where the lookup
  gives nothing.
\<close>

datatype icon = PendingIcon | InProgressIcon | DiscussedIcon | InheritedMember

definition statusIcons :: "string \<rightharpoonup> icon" where
  "statusIcons =
     [''pending'' \<mapsto> PendingIcon, ''in_progress'' \<mapsto> InProgressIcon,
      ''discussed'' \<mapsto> DiscussedIcon]"

record tracker_item =
  item_class :: string
  item_icon :: icon
  item_text :: string
  item_note :: "string option"

definition render_point :: "point \<Rightarrow> tracker_item" where
  "render_point p =
     \<lparr>item_class = ''tracker-'' @ point_status p,
      item_icon = (case get_property statusIcons (point_status p) of
                     Own i \<Rightarrow> i
                   | Inherited \<Rightarrow> InheritedMember
                   | Undefined \<Rightarrow> PendingIcon),
      item_text = point_text p,
      item_note = (if truthy (point_note p) then point_note p else None)\<rparr>"

text \<open>
  The tracker globals and what the tracker panel shows: the rendered items, the nudge,
  the count \<open>(discussed, all)\<close> and which parts are hidden.
\<close>

record tracker =
  trackerItems :: "tracker_item list"
  trackerNudge :: "string option"
  trackerCount :: "nat \<times> nat"
  trackerSetupMode :: string
  discussionTrackerMode :: bool
  trackedPoints :: "string list"
  trackerAutoWaiting_hidden :: bool
  trackerItemsContainer_hidden :: bool

definition init_tracker :: tracker where
  "init_tracker =
     \<lparr>trackerItems = [], trackerNudge = None, trackerCount = (0, 0),
      trackerSetupMode = ''none'', discussionTrackerMode = False, trackedPoints = [],
      trackerAutoWaiting_hidden = True, trackerItemsContainer_hidden = True\<rparr>"

definition renderDiscussionTracker :: "point list \<Rightarrow> string \<Rightarrow> tracker \<Rightarrow> tracker" where
  "renderDiscussionTracker ps nudge_text t =
     (if length ps = 0 then t
      else t\<lparr>trackerItems := map render_point ps,
             trackerNudge := (if nudge_text \<noteq> [] then Some nudge_text else None),
             trackerCount := (length (filter (\<lambda>p. point_status p = ''discussed'') ps),
                              length ps)\<rparr>)"

definition handleDiscussionTrackerUpdate :: "tracker_update \<Rightarrow> tracker \<Rightarrow> tracker" where
  "handleDiscussionTrackerUpdate data t =
     (case update_points data of
        None \<Rightarrow> t
      | Some ps \<Rightarrow>
          if length ps > 0 then
            (let t = (if trackerSetupMode t = ''auto'' \<and> \<not> discussionTrackerMode t
                      then t\<lparr>discussionTrackerMode := True, trackerSetupMode := ''active'',
                             trackerAutoWaiting_hidden := True,
                             trackerItemsContainer_hidden := False,
                             trackedPoints := map point_text ps\<rparr>
                      else t)
             in renderDiscussionTracker ps (or_empty (update_nudge data)) t)
          else t)"

definition handleDiscussionTrackerUpdates :: "tracker_update list \<Rightarrow> tracker \<Rightarrow> tracker" where
  "handleDiscussionTrackerUpdates msgs t = fold handleDiscussionTrackerUpdate msgs t"

text \<open>The points of the last message of a sequence that has any.\<close>

definition has_points :: "tracker_update \<Rightarrow> bool" where
  "has_points data = (case update_points data of None \<Rightarrow> False | Some ps \<Rightarrow> length ps > 0)"

definition latest_points :: "tracker_update list \<Rightarrow> point list option" where
  "latest_points msgs =
     (if filter has_points msgs = [] then None
      else update_points (last (filter has_points msgs)))"

text \<open>The statuses that the panel shows for the point with a given text.\<close>

definition displayed :: "tracker \<Rightarrow> string \<Rightarrow> string list" where
  "displayed t txt = map item_class (filter (\<lambda>i. item_text i = txt) (trackerItems t))"

text \<open>Two updates for one point: first discussed, then pending again.\<close>

definition discussed_update :: tracker_update where
  "discussed_update =
     \<lparr>update_points = Some [\<lparr>point_text = ''Roth conversion'', point_status = ''discussed'',
                       point_note = Some ''Covered''\<rparr>],
      update_nudge = None\<rparr>"

definition backward_update :: tracker_update where
  "backward_update =
     \<lparr>update_points = Some [\<lparr>point_text = ''Roth conversion'', point_status = ''pending'',
                       point_note = None\<rparr>],
      update_nudge = Some ''Raise the Roth conversion''\<rparr>"

text \<open>A later update keeps a point discussed: where it carries the point, it carries it as discussed.\<close>

definition keeps_discussed :: "string \<Rightarrow> tracker_update \<Rightarrow> bool" where
  "keeps_discussed txt m =
     (case update_points m of
        None \<Rightarrow> True
      | Some ps \<Rightarrow> list_all (\<lambda>p. point_text p = txt \<longrightarrow> point_status p = ''discussed'') ps)"

section \<open>Transcript rendering\<close>

text \<open>
  A \<^verbatim>\<open>transcript\<close> message and a transcript line. A line is an element with an
  identity; it is final or interim and has the speaker class, the time stamp, the
  speaker label and the text of its three spans.
\<close>

record transcript_msg =
  msg_text :: string
  is_final :: bool
  speaker :: string

datatype line_kind = Final | Interim

record line =
  element :: nat
  kind :: line_kind
  speakerClass :: string
  timestamp :: string
  label :: string
  content :: string

text \<open>The children of the transcript container: the placeholder or lines.\<close>

datatype node = EmptyState | EmptyStateSm | Line line

text \<open>
  The transcript container, the object \<^verbatim>\<open>interimElements\<close> (speaker to element) and
  the identity that the next created element gets.
\<close>

record transcript =
  transcriptContainer :: "node list"
  interimElements :: "string \<rightharpoonup> nat"
  nextElement :: nat

definition init_transcript :: transcript where
  "init_transcript =
     \<lparr>transcriptContainer = [EmptyState], interimElements = Map.empty, nextElement = 0\<rparr>"

text \<open>
  \<^verbatim>\<open>removeEmptyState\<close> removes the first placeholder of class \<^verbatim>\<open>empty-state\<close>, or
  else the first of class \<^verbatim>\<open>empty-state-sm\<close>.
\<close>

definition removeEmptyState :: "node list \<Rightarrow> node list" where
  "removeEmptyState nodes =
     (if EmptyState \<in> set nodes then remove1 EmptyState nodes else remove1 EmptyStateSm nodes)"

text \<open>\<^verbatim>\<open>element.remove()\<close> and setting the text of the element's text span.\<close>

fun is_element :: "nat \<Rightarrow> node \<Rightarrow> bool" where
  "is_element e (Line l) = (element l = e)"
| "is_element e n = False"

definition remove_element :: "nat \<Rightarrow> node list \<Rightarrow> node list" where
  "remove_element e nodes = filter (\<lambda>n. \<not> is_element e n) nodes"

definition line_content :: "nat \<Rightarrow> string \<Rightarrow> line \<Rightarrow> line" where
  "line_content e txt l = (if element l = e then l\<lparr>content := txt\<rparr> else l)"

fun set_content :: "nat \<Rightarrow> string \<Rightarrow> node \<Rightarrow> node" where
  "set_content e txt (Line l) = Line (line_content e txt l)"
| "set_content e txt n = n"

text \<open>The line that a final message appends, and the interim line of a partial one.\<close>

definition final_line :: "transcript_msg \<Rightarrow> string \<Rightarrow> nat \<Rightarrow> line" where
  "final_line data time n =
     \<lparr>element = n, kind = Final,
      speakerClass = (if speaker data = ''Client'' then ''speaker-client'' else ''speaker-advisor''),
      timestamp = time, label = speaker data, content = msg_text data\<rparr>"

definition interim_line :: "transcript_msg \<Rightarrow> string \<Rightarrow> nat \<Rightarrow> line" where
  "interim_line data time n =
     \<lparr>element = n, kind = Interim,
      speakerClass = (if speaker data = ''Client'' then ''speaker-client'' else ''speaker-advisor''),
      timestamp = time, label = speaker data, content = msg_text data\<rparr>"

text \<open>
  \<^verbatim>\<open>handleTranscript\<close> with the message and the time of day. It returns the new state
  and the exception it raised, if any: for a speaker that names a member of
  \<^verbatim>\<open>Object.prototype\<close> the lookup in \<^verbatim>\<open>interimElements\<close> gives that member, which
  has no \<^verbatim>\<open>remove\<close> and no \<^verbatim>\<open>querySelector\<close>, and calling it raises a TypeError
  after the placeholder has been removed.
\<close>

definition handleTranscript ::
    "transcript_msg \<Rightarrow> string \<Rightarrow> transcript \<Rightarrow> js_error option \<times> transcript" where
  "handleTranscript data time t =
     (let t = t\<lparr>transcriptContainer := removeEmptyState (transcriptContainer t)\<rparr>;
          cls = (if speaker data = ''Client'' then ''speaker-client'' else ''speaker-advisor'')
      in if is_final data then
           (case get_property (interimElements t) (speaker data) of
              Inherited \<Rightarrow> (Some TypeError, t)
            | found \<Rightarrow>
               (let t = (case found of
                           Own e \<Rightarrow>
                             t\<lparr>transcriptContainer := remove_element e (transcriptContainer t),
                               interimElements := (interimElements t)(speaker data := None)\<rparr>
                         | _ \<Rightarrow> t);
                    l = \<lparr>element = nextElement t, kind = Final, speakerClass = cls,
                         timestamp = time, label = speaker data, content = msg_text data\<rparr>
                in (None, t\<lparr>transcriptContainer := transcriptContainer t @ [Line l],
                             nextElement := nextElement t + 1\<rparr>)))
         else
           (case get_property (interimElements t) (speaker data) of
              Inherited \<Rightarrow> (Some TypeError, t)
            | found \<Rightarrow>
               (let (e, t) =
                      (case found of
                         Own e \<Rightarrow> (e, t)
                       | _ \<Rightarrow>
                          (let l = \<lparr>element = nextElement t, kind = Interim, speakerClass = cls,
                                    timestamp = time, label = speaker data, content = []\<rparr>
                           in (nextElement t,
                               t\<lparr>transcriptContainer := transcriptContainer t @ [Line l],
                                 interimElements :=
                                   (interimElements t)(speaker data \<mapsto> nextElement t),
                                 nextElement := nextElement t + 1\<rparr>)))
                in (None, t\<lparr>transcriptContainer :=
                               map (set_content e (msg_text data)) (transcriptContainer t)\<rparr>))))"

text \<open>
  A sequence of messages, each with its time of arrival. A handler that raises ends
  there; the next message finds the state as the handler left it.
\<close>

definition handleTranscripts :: "(transcript_msg \<times> string) list \<Rightarrow> transcript \<Rightarrow> transcript" where
  "handleTranscripts msgs t = fold (\<lambda>(data, time) t. snd (handleTranscript data time t)) msgs t"

text \<open>The lines of the container, in order, and what the final and interim ones show.\<close>

fun lines_of :: "node list \<Rightarrow> line list" where
  "lines_of [] = []"
| "lines_of (Line l # ns) = l # lines_of ns"
| "lines_of (n # ns) = lines_of ns"

definition finals :: "line list \<Rightarrow> (string \<times> string \<times> string) list" where
  "finals ls = map (\<lambda>l. (label l, content l, timestamp l)) (filter (\<lambda>l. kind l = Final) ls)"

definition final_lines :: "transcript \<Rightarrow> (string \<times> string \<times> string) list" where
  "final_lines t = finals (lines_of (transcriptContainer t))"

definition interim_lines :: "transcript \<Rightarrow> string \<Rightarrow> line list" where
  "interim_lines t s =
     filter (\<lambda>l. kind l = Interim \<and> label l = s) (lines_of (transcriptContainer t))"

text \<open>
  The speaker labels for which \<^verbatim>\<open>interimElements\<close> works as a dictionary: all but the
  names of the members of \<^verbatim>\<open>Object.prototype\<close>. The server labels a transcript
  \<^verbatim>\<open>Advisor\<close> or \<^verbatim>\<open>Client\<close>.
\<close>

definition plain_speaker :: "string \<Rightarrow> bool" where
  "plain_speaker s \<longleftrightarrow> s \<notin> set object_prototype_keys"

text \<open>
  The invariant that ties the container to \<^verbatim>\<open>interimElements\<close>: elements have distinct
  identities, all handed out before; an interim line is the recorded element of its
  speaker; and a recorded element is an interim line of that speaker in the container.
\<close>

definition lines_ok :: "line list \<Rightarrow> (string \<rightharpoonup> nat) \<Rightarrow> nat \<Rightarrow> bool" where
  "lines_ok ls interim n \<longleftrightarrow>
     distinct (map element ls) \<and>
     (\<forall>l \<in> set ls. element l < n \<and> (kind l = Interim \<longrightarrow> interim (label l) = Some (element l))) \<and>
     (\<forall>s e. interim s = Some e \<longrightarrow> (\<exists>l \<in> set ls. element l = e \<and> kind l = Interim \<and> label l = s))"

definition transcript_ok :: "transcript \<Rightarrow> bool" where
  "transcript_ok t \<longleftrightarrow>
     lines_ok (lines_of (transcriptContainer t)) (interimElements t) (nextElement t)"

text \<open>A short conversation: the advisor speaks while the client's words are still interim.\<close>

definition sample_transcript :: "(transcript_msg \<times> string) list" where
  "sample_transcript =
     [(\<lparr>msg_text = ''We want'', is_final = False, speaker = ''Client''\<rparr>, ''10:00:01''),
      (\<lparr>msg_text = ''Tell me more.'', is_final = True, speaker = ''Advisor''\<rparr>, ''10:00:02''),
      (\<lparr>msg_text = ''We want to save'', is_final = False, speaker = ''Client''\<rparr>, ''10:00:03''),
      (\<lparr>msg_text = ''We want to save for college.'', is_final = True, speaker = ''Client''\<rparr>,
       ''10:00:04'')]"

text \<open>The client's second partial message and final message on their own.\<close>

definition client_partial :: transcript_msg where
  "client_partial = \<lparr>msg_text = ''We want to save'', is_final = False, speaker = ''Client''\<rparr>"

definition client_final :: transcript_msg where
  "client_final =
     \<lparr>msg_text = ''We want to save for college.'', is_final = True, speaker = ''Client''\<rparr>"

section \<open>Properties of the PCM conversion\<close>

lemma clamp_low:
  "a \<le> - 1 \<Longrightarrow> Math_max (Num (- 1)) (Math_min (Num 1) (Num a)) = Num (- 1)"
  by (simp add: min_def max_def)

lemma floatTo16BitPCM_sample_low:
  "a \<le> - 1 \<Longrightarrow> sint (floatTo16BitPCM_sample (Num a)) = 32767"
  by (simp add: floatTo16BitPCM_sample_def clamp_low ToIntegerOrInfinity_def)

lemma floatTo16BitPCM_sample_NegInfinity:
  "sint (floatTo16BitPCM_sample NegInfinity) = 32767"
  by (simp add: floatTo16BitPCM_sample_def ToIntegerOrInfinity_def)

text \<open>
  Claim C7. Every sample at or below \<open>-1.0\<close> should convert to \<open>-32768\<close>, the most
  negative 16-bit value, without wrapping around. The code scales negative samples by
  \<^verbatim>\<open>0x8001\<close> = 32769 instead of \<^verbatim>\<open>0x8000\<close> = 32768, so the sample \<open>-1.0\<close> becomes
  \<open>-32769\<close>, which ToInt16 wraps to \<open>+32767\<close>.
\<close>

theorem floatTo16BitPCM_minus_one_wraps:
  "map sint (floatTo16BitPCM [Num (- 1)]) = [32767]"
  by (simp add: floatTo16BitPCM_def floatTo16BitPCM_sample_def ToIntegerOrInfinity_def)

section \<open>The packet and the socket invariant\<close>

lemma sendAudioPacket_packet_eq:
  "sendAudioPacket_packet sourceId pcm = Some (word_of_nat sourceId # pcm)"
  by (simp add: sendAudioPacket_packet_def uint8_set_def Let_def)

subsection \<open>Fields that the helpers leave alone\<close>

lemma setStatus_sockets [simp]:
  "sockets (setStatus a b c) = sockets c" "websocket (setStatus a b c) = websocket c"
  by (simp_all add: setStatus_def)

lemma stopAudioCapture_sockets [simp]:
  "sockets (stopAudioCapture c) = sockets c" "websocket (stopAudioCapture c) = websocket c"
  by (simp_all add: stopAudioCapture_def)

lemma updateSourceIndicators_sockets [simp]:
  "sockets (updateSourceIndicators c) = sockets c"
  "websocket (updateSourceIndicators c) = websocket c"
  by (simp_all add: updateSourceIndicators_def)

lemma startAudioCapture_sockets [simp]:
  "sockets (snd (startAudioCapture env c)) = sockets c"
  "websocket (snd (startAudioCapture env c)) = websocket c"
  by (simp_all add: startAudioCapture_def Let_def split: option.splits display_result.splits prod.splits)

lemma startListening_catch_sockets [simp]:
  "sockets (startListening_catch m c) = sockets c"
  "websocket (startListening_catch m c) = websocket c"
  by (simp_all add: startListening_catch_def)

subsection \<open>The socket invariant\<close>

lemma socket_ok_append:
  assumes "socket_ok g i s" "readyState s = OPEN" "sent s \<noteq> []" "tagged f"
  shows "socket_ok g i (s\<lparr>sent := sent s @ [f]\<rparr>)"
  using assms by (cases "sent s") (auto simp: socket_ok_def config_first_def frames_tagged_def)

lemma socket_ok_global:
  "socket_ok g i s \<Longrightarrow> g' \<noteq> Some i \<or> readyState s \<noteq> OPEN \<or> sent s \<noteq> [] \<Longrightarrow> socket_ok g' i s"
  by (auto simp: socket_ok_def)

lemma sockets_ok_transmit:
  assumes "sockets_ok ss (Some i)" "readyState (ss ! i) = OPEN" "tagged f"
  shows "sockets_ok (transmit i f ss) (Some i)"
proof -
  from assms(1) have i: "i < length ss" and all: "\<forall>j < length ss. socket_ok (Some i) j (ss ! j)"
    by (simp_all add: sockets_ok_def)
  from all i have "socket_ok (Some i) i (ss ! i)" by blast
  moreover from this assms(2) have "sent (ss ! i) \<noteq> []" by (simp add: socket_ok_def)
  ultimately have "socket_ok (Some i) i ((ss ! i)\<lparr>sent := sent (ss ! i) @ [f]\<rparr>)"
    using assms(2,3) by (intro socket_ok_append)
  with all i show ?thesis
    by (simp add: sockets_ok_def transmit_def nth_list_update)
qed

lemma websocket_send_Inr:
  "websocket_send f c = Inr c' \<Longrightarrow>
     websocket c' = websocket c \<and>
     (sockets c' = sockets c \<or>
      (\<exists>i. websocket c = Some i \<and> i < length (sockets c) \<and> readyState (sockets c ! i) = OPEN \<and>
           sockets c' = transmit i f (sockets c)))"
  by (auto simp: websocket_send_def split: option.splits if_splits readyState.splits)

lemma websocket_send_ok:
  assumes "sockets_ok (sockets c) (websocket c)" "tagged f" "websocket_send f c = Inr c'"
  shows "sockets_ok (sockets c') (websocket c')"
  using websocket_send_Inr [OF assms(3)] assms(1,2) by (auto intro: sockets_ok_transmit)

lemma send_when_open_ok:
  assumes "sockets_ok (sockets c) (websocket c)" "tagged f"
  shows "sockets_ok (sockets (send_when_open f c)) (websocket (send_when_open f c))"
  using assms by (auto simp: send_when_open_def split: sum.splits intro: websocket_send_ok)

lemma tagged_source:
  "sourceId = SOURCE_MIC \<or> sourceId = SOURCE_SPEAKER \<Longrightarrow> tagged (Binary (word_of_nat sourceId # pcm))"
  by (auto simp: SOURCE_MIC_def SOURCE_SPEAKER_def)

lemma sendAudioPacket_ok:
  assumes "sockets_ok (sockets c) (websocket c)" "sourceId = SOURCE_MIC \<or> sourceId = SOURCE_SPEAKER"
  shows "sockets_ok (sockets (sendAudioPacket sourceId pcm c)) (websocket (sendAudioPacket sourceId pcm c))"
  using assms
  by (auto simp: sendAudioPacket_def sendAudioPacket_packet_eq split: sum.splits
      intro: websocket_send_ok tagged_source)

lemma sockets_ok_update:
  assumes "sockets_ok ss g" "i < length ss" "socket_ok g i s"
  shows "sockets_ok (ss[i := s]) g"
  using assms by (auto simp: sockets_ok_def nth_list_update split: option.splits)

lemma sockets_ok_nth: "sockets_ok ss g \<Longrightarrow> i < length ss \<Longrightarrow> socket_ok g i (ss ! i)"
  by (simp add: sockets_ok_def)

lemma sockets_ok_None: "sockets_ok ss g \<Longrightarrow> sockets_ok ss None"
  by (auto simp: sockets_ok_def socket_ok_def)

lemma ws_close_ok:
  assumes "sockets_ok (sockets c) (websocket c)"
  shows "sockets_ok (sockets (ws_close i c)) (websocket (ws_close i c))"
proof (cases "i < length (sockets c) \<and> readyState (sockets c ! i) \<in> {CONNECTING, OPEN}")
  case True
  then have "socket_ok (websocket c) i ((sockets c ! i)\<lparr>readyState := CLOSING\<rparr>)"
    using sockets_ok_nth [OF assms, of i] by (auto simp: socket_ok_def config_first_def frames_tagged_def)
  with True assms show ?thesis by (simp add: ws_close_def sockets_ok_update)
next
  case False
  with assms show ?thesis by (auto simp: ws_close_def)
qed

lemma ws_close_websocket [simp]: "websocket (ws_close i c) = websocket c"
  by (simp add: ws_close_def)

lemma finishStop_ok:
  assumes "sockets_ok (sockets c) (websocket c)"
  shows "sockets_ok (sockets (finishStop c)) (websocket (finishStop c))"
proof (cases "websocket c")
  case None
  with assms show ?thesis by (simp add: finishStop_def Let_def)
next
  case (Some i)
  have "sockets_ok (sockets (ws_close i (stopAudioCapture c))) (websocket (ws_close i (stopAudioCapture c)))"
    using assms by (intro ws_close_ok) simp
  then have "sockets_ok (sockets (ws_close i (stopAudioCapture c))) None"
    by (rule sockets_ok_None)
  with Some show ?thesis by (simp add: finishStop_def Let_def)
qed

lemma connectWebSocket_ok:
  assumes "sockets_ok (sockets c) (websocket c)"
  shows "sockets_ok (sockets (connectWebSocket cfg c)) (websocket (connectWebSocket cfg c))"
  using assms
  by (auto simp: connectWebSocket_def sockets_ok_def socket_ok_def nth_append config_first_def
      frames_tagged_def)

lemma startListening_ok:
  assumes "sockets_ok (sockets c) (websocket c)"
  shows "sockets_ok (sockets (startListening env c)) (websocket (startListening env c))"
proof -
  let ?c = "setStatus ''connecting'' ''Starting...'' c"
  obtain r c1 where r: "startAudioCapture env ?c = (r, c1)" by (cases "startAudioCapture env ?c")
  then have "sockets c1 = sockets c" "websocket c1 = websocket c"
    using startAudioCapture_sockets [of env ?c] by simp_all
  with assms have "sockets_ok (sockets c1) (websocket c1)" by simp
  with r assms show ?thesis
    by (auto simp: startListening_def Let_def split: sum.splits intro: connectWebSocket_ok)
qed

lemma startListening_resumed_ok:
  assumes "sockets_ok (sockets c) (websocket c)"
  shows "sockets_ok (sockets (startListening_resumed a b c)) (websocket (startListening_resumed a b c))"
proof -
  let ?c = "updateSourceIndicators (c\<lparr>isListening := True\<rparr>)"
  have ok: "sockets_ok (sockets ?c) (websocket ?c)" using assms by simp
  show ?thesis
    using ok websocket_send_ok [OF ok, of "Text (CoachingMode True)"]
    by (auto simp: startListening_resumed_def Let_def split: sum.splits)
qed


lemma onopen_ok:
  assumes "sockets_ok (sockets c) (websocket c)"
  shows "sockets_ok (sockets (onopen i a b c)) (websocket (onopen i a b c))"
proof (cases "i < length (sockets c) \<and> readyState (sockets c ! i) = CONNECTING")
  case False
  with assms show ?thesis by (auto simp: onopen_def)
next
  case True
  then have i: "i < length (sockets c)" and conn: "readyState (sockets c ! i) = CONNECTING"
    by simp_all
  obtain sr srcs mode where cfg: "config_args (sockets c ! i) = (sr, srcs, mode)"
    by (cases "config_args (sockets c ! i)")
  let ?f = "Text (Config sr srcs (if mode = [] then ''live'' else mode))"
  let ?s = "(sockets c ! i)\<lparr>readyState := OPEN\<rparr>"
  let ?c1 = "c\<lparr>sockets := (sockets c)[i := ?s]\<rparr>"
  from sockets_ok_nth [OF assms i] conn have empty: "sent (sockets c ! i) = []"
    by (simp add: socket_ok_def)
  have g: "case websocket c of None \<Rightarrow> True | Some j \<Rightarrow> j < length (sockets c)"
    using assms by (simp add: sockets_ok_def)
  have others: "\<And>j. j < length (sockets c) \<Longrightarrow> j \<noteq> i \<Longrightarrow> socket_ok (websocket c) j (sockets c ! j)"
    using assms by (simp add: sockets_ok_def)
  \<comment> \<open>the outcome of the send, and the heap after it\<close>
  have send: "(\<exists>e. websocket_send ?f ?c1 = Inl e \<and> websocket c \<noteq> Some i) \<or>
              (\<exists>c2. websocket_send ?f ?c1 = Inr c2 \<and> websocket c2 = websocket c \<and>
                    length (sockets c2) = length (sockets c) \<and>
                    sockets_ok (sockets c2) (websocket c2))"
  proof (cases "websocket c")
    case None
    then show ?thesis by (simp add: websocket_send_def)
  next
    case (Some j)
    with g have j: "j < length (sockets c)" by simp
    show ?thesis
    proof (cases "j = i")
      case True
      have "sockets_ok (transmit i ?f ((sockets c)[i := ?s])) (Some i)"
        unfolding sockets_ok_def
      proof (intro conjI allI impI)
        show "case Some i of None \<Rightarrow> True | Some k \<Rightarrow> k < length (transmit i ?f ((sockets c)[i := ?s]))"
          using i by (simp add: transmit_def)
      next
        fix k assume "k < length (transmit i ?f ((sockets c)[i := ?s]))"
        then have k: "k < length (sockets c)" by (simp add: transmit_def)
        show "socket_ok (Some i) k (transmit i ?f ((sockets c)[i := ?s]) ! k)"
        proof (cases "k = i")
          case True
          with i empty show ?thesis
            by (simp add: transmit_def socket_ok_def config_first_def frames_tagged_def)
        next
          case False
          with others [OF k] Some \<open>j = i\<close> k show ?thesis
            by (simp add: transmit_def)
        qed
      qed
      with True Some i show ?thesis
        by (simp add: websocket_send_def transmit_def)
    next
      case False
      have ok1: "sockets_ok (sockets ?c1) (websocket ?c1)"
        unfolding sockets_ok_def
      proof (intro conjI allI impI)
        show "case websocket ?c1 of None \<Rightarrow> True | Some k \<Rightarrow> k < length (sockets ?c1)"
          using Some j by simp
      next
        fix k assume "k < length (sockets ?c1)"
        then have k: "k < length (sockets c)" by simp
        show "socket_ok (websocket ?c1) k (sockets ?c1 ! k)"
        proof (cases "k = i")
          case True
          with i empty Some False show ?thesis
            by (simp add: socket_ok_def config_first_def frames_tagged_def)
        next
          case False
          with others [OF k] k show ?thesis by simp
        qed
      qed
      show ?thesis
      proof (cases "websocket_send ?f ?c1")
        case (Inl e)
        with Some False show ?thesis by simp
      next
        case (Inr c2)
        from websocket_send_ok [OF ok1 _ Inr] websocket_send_Inr [OF Inr]
        show ?thesis using Inr by (auto simp: transmit_def)
      qed
    qed
  qed
  \<comment> \<open>the heap when the send raised\<close>
  have raised: "websocket c \<noteq> Some i \<Longrightarrow> sockets_ok (sockets ?c1) (websocket ?c1)"
    unfolding sockets_ok_def
  proof (intro conjI allI impI)
    show "case websocket ?c1 of None \<Rightarrow> True | Some k \<Rightarrow> k < length (sockets ?c1)"
      using g by (simp split: option.splits)
  next
    fix k assume ne: "websocket c \<noteq> Some i" and "k < length (sockets ?c1)"
    then have k: "k < length (sockets c)" by simp
    show "socket_ok (websocket ?c1) k (sockets ?c1 ! k)"
    proof (cases "k = i")
      case True
      with i empty ne show ?thesis
        by (simp add: socket_ok_def config_first_def frames_tagged_def)
    next
      case False
      with others [OF k] k show ?thesis by simp
    qed
  qed
  have settle: "\<And>c2. sockets_ok (sockets c2) (websocket c2) \<Longrightarrow> length (sockets c2) = length (sockets c) \<Longrightarrow>
      sockets_ok (sockets (c2\<lparr>sockets := (sockets c2)[i := (sockets c2 ! i)\<lparr>promise_pending := False\<rparr>]\<rparr>))
                 (websocket (c2\<lparr>sockets := (sockets c2)[i := (sockets c2 ! i)\<lparr>promise_pending := False\<rparr>]\<rparr>))"
  proof -
    fix c2 assume ok: "sockets_ok (sockets c2) (websocket c2)" and len: "length (sockets c2) = length (sockets c)"
    from sockets_ok_nth [OF ok, of i] i len
    have "socket_ok (websocket c2) i ((sockets c2 ! i)\<lparr>promise_pending := False\<rparr>)"
      by (simp add: socket_ok_def config_first_def frames_tagged_def)
    with ok i len show "sockets_ok (sockets (c2\<lparr>sockets := (sockets c2)[i := (sockets c2 ! i)\<lparr>promise_pending := False\<rparr>]\<rparr>))
                 (websocket (c2\<lparr>sockets := (sockets c2)[i := (sockets c2 ! i)\<lparr>promise_pending := False\<rparr>]\<rparr>))"
      by (simp add: sockets_ok_update)
  qed
  from send show ?thesis
  proof
    assume "\<exists>e. websocket_send ?f ?c1 = Inl e \<and> websocket c \<noteq> Some i"
    then obtain e where "websocket_send ?f ?c1 = Inl e" "websocket c \<noteq> Some i" by blast
    with True cfg raised show ?thesis by (simp add: onopen_def)
  next
    assume "\<exists>c2. websocket_send ?f ?c1 = Inr c2 \<and> websocket c2 = websocket c \<and>
                    length (sockets c2) = length (sockets c) \<and>
                    sockets_ok (sockets c2) (websocket c2)"
    then obtain c2 where c2: "websocket_send ?f ?c1 = Inr c2" "length (sockets c2) = length (sockets c)"
      "sockets_ok (sockets c2) (websocket c2)" by blast
    from startListening_resumed_ok [OF settle [OF c2(3) c2(2)]] c2 True cfg
    show ?thesis by (simp add: onopen_def)
  qed
qed

lemma onerror_ok:
  assumes "sockets_ok (sockets c) (websocket c)"
  shows "sockets_ok (sockets (onerror i c)) (websocket (onerror i c))"
proof (cases "i < length (sockets c)")
  case False
  with assms show ?thesis by (simp add: onerror_def)
next
  case True
  from sockets_ok_nth [OF assms True]
  have "socket_ok (websocket c) i ((sockets c ! i)\<lparr>promise_pending := False\<rparr>)"
    by (simp add: socket_ok_def config_first_def frames_tagged_def)
  with assms True show ?thesis
    by (simp add: onerror_def Let_def sockets_ok_update)
qed

lemma onclose_ok:
  assumes "sockets_ok (sockets c) (websocket c)"
  shows "sockets_ok (sockets (onclose i c)) (websocket (onclose i c))"
proof (cases "i < length (sockets c) \<and> readyState (sockets c ! i) \<noteq> CLOSED")
  case False
  with assms show ?thesis by (auto simp: onclose_def)
next
  case True
  let ?c1 = "c\<lparr>sockets := (sockets c)[i := (sockets c ! i)\<lparr>readyState := CLOSED\<rparr>]\<rparr>"
  from True sockets_ok_nth [OF assms, of i]
  have "socket_ok (websocket c) i ((sockets c ! i)\<lparr>readyState := CLOSED\<rparr>)"
    by (auto simp: socket_ok_def config_first_def frames_tagged_def)
  with assms True have ok1: "sockets_ok (sockets ?c1) (websocket ?c1)"
    by (simp add: sockets_ok_update)
  have "sockets_ok (sockets (finishStop (setStatus ''error'' ''Connection lost'' ?c1)))
          (websocket (finishStop (setStatus ''error'' ''Connection lost'' ?c1)))"
    using ok1 by (intro finishStop_ok) simp
  with ok1 True show ?thesis
    by (simp add: onclose_def Let_def)
qed

lemma setTimeout_sockets [simp]:
  "sockets (snd (setTimeout d c)) = sockets c" "websocket (snd (setTimeout d c)) = websocket c"
  by (simp_all add: setTimeout_def)

lemma stopListening_ok:
  assumes "sockets_ok (sockets c) (websocket c)"
  shows "sockets_ok (sockets (stopListening c)) (websocket (stopListening c))"
proof (cases "isListening c")
  case False
  with assms show ?thesis by (simp add: stopListening_def)
next
  case True
  let ?c1 = "c\<lparr>isListening := False\<rparr>"
  show ?thesis
  proof (cases "ws_is_open ?c1")
    case False
    have "sockets_ok (sockets (finishStop (stopAudioCapture ?c1))) (websocket (finishStop (stopAudioCapture ?c1)))"
      using assms by (intro finishStop_ok) simp
    with True False show ?thesis by (simp add: stopListening_def Let_def)
  next
    case op: True
    let ?c2 = "?c1\<lparr>waitingForSummary := True\<rparr>"
    have ok2: "sockets_ok (sockets ?c2) (websocket ?c2)" using assms by simp
    show ?thesis
    proof (cases "websocket_send (Text GenerateSummary) ?c2")
      case (Inl e)
      with True op ok2 show ?thesis by (simp add: stopListening_def Let_def)
    next
      case (Inr c3)
      from websocket_send_ok [OF ok2 _ Inr] have "sockets_ok (sockets c3) (websocket c3)" by simp
      with True op Inr show ?thesis
        by (simp add: stopListening_def Let_def showPostCallModal_def setTimeout_def)
    qed
  qed
qed

lemma handlePostCallSummary_sockets [simp]:
  "sockets (handlePostCallSummary err c) = sockets c"
  "websocket (handlePostCallSummary err c) = websocket c"
  by (simp_all add: handlePostCallSummary_def Let_def clearTimeout_def split: option.splits)

lemma fire_sockets [simp]:
  "sockets (fire h c) = sockets c" "websocket (fire h c) = websocket c"
  by (simp_all add: fire_def summaryTimeoutCallback_def)

lemma fold_fire_sockets [simp]:
  "sockets (fold fire hs c) = sockets c" "websocket (fold fire hs c) = websocket c"
  by (induction hs arbitrary: c) simp_all

lemma elapse_sockets [simp]:
  "sockets (elapse d c) = sockets c" "websocket (elapse d c) = websocket c"
  by (simp_all add: elapse_def Let_def)

lemma speakerTrackEnded_sockets [simp]:
  "sockets (speakerTrackEnded c) = sockets c" "websocket (speakerTrackEnded c) = websocket c"
  by (simp_all add: speakerTrackEnded_def)

lemma sendClientContext_ok:
  assumes "sockets_ok (sockets c) (websocket c)"
  shows "sockets_ok (sockets (sendClientContext c)) (websocket (sendClientContext c))"
  using assms by (auto simp: sendClientContext_def split: option.splits intro: send_when_open_ok)

lemma activateTrackerWithPoints_send_ok:
  assumes "sockets_ok (sockets c) (websocket c)"
  shows "sockets_ok (sockets (activateTrackerWithPoints_send ps c))
           (websocket (activateTrackerWithPoints_send ps c))"
proof -
  have "sockets_ok (sockets (c\<lparr>discussionPoints := ps\<rparr>)) (websocket (c\<lparr>discussionPoints := ps\<rparr>))"
    using assms by simp
  then show ?thesis
    by (auto simp: activateTrackerWithPoints_send_def Let_def split: option.splits
        intro!: send_when_open_ok)
qed

lemma step_ok:
  assumes "sockets_ok (sockets c) (websocket c)"
  shows "sockets_ok (sockets (step e c)) (websocket (step e c))"
proof (cases e)
  case (StartClicked env)
  with assms show ?thesis by (simp add: startListening_ok)
next
  case (WsOpen i a b)
  with assms show ?thesis by (simp add: onopen_ok)
next
  case (WsError i)
  with assms show ?thesis by (simp add: onerror_ok)
next
  case (WsClose i)
  with assms show ?thesis by (simp add: onclose_ok)
next
  case (MicWorkletMessage pcm)
  with assms show ?thesis by (simp add: micWorkletMessage_def sendAudioPacket_ok)
next
  case (SpeakerWorkletMessage pcm)
  with assms show ?thesis by (simp add: speakerWorkletMessage_def sendAudioPacket_ok)
next
  case PingTick
  with assms show ?thesis by (simp add: pingTick_def send_when_open_ok)
next
  case (CoachingToggled b)
  with assms show ?thesis by (simp add: coachingToggleChanged_def send_when_open_ok)
next
  case ClientContextTimer
  with assms show ?thesis by (simp add: sendClientContext_ok)
next
  case (TrackerActivated ps)
  with assms show ?thesis by (simp add: activateTrackerWithPoints_send_ok)
next
  case StopClicked
  with assms show ?thesis by (simp add: stopListening_ok)
next
  case ModalClosed
  with assms show ?thesis by (simp add: closePostCallModal_def finishStop_ok)
qed (use assms in \<open>simp_all add: clearAll_client_def\<close>)

lemma run_ok:
  "sockets_ok (sockets c) (websocket c) \<Longrightarrow> sockets_ok (sockets (run es c)) (websocket (run es c))"
  unfolding run_def by (induction es arbitrary: c) (simp_all add: step_ok)

lemma init_client_ok: "sockets_ok (sockets (init_client cid ps)) (websocket (init_client cid ps))"
  by (simp add: init_client_def sockets_ok_def)

lemma run_append: "run (es @ es') c = run es' (run es c)"
  by (simp add: run_def)

section \<open>Audio frames on the wire\<close>

lemma sample_run:
  "sockets (run sample_session (init_client None [])) =
     [\<lparr>readyState = OPEN,
       sent = [Text (Config 24000 [''mic'', ''speaker''] ''live''),
               Binary [0x01, 0x34, 0x12], Binary [0x02, 0xff, 0x7f]],
       config_args = (24000, [''mic'', ''speaker''], ''live''), promise_pending = False\<rparr>]"
  by (simp add: run_def sample_session_def sample_env_def init_client_def startListening_def
      startAudioCapture_def setStatus_def updateSourceIndicators_def connectWebSocket_def
      micWorkletMessage_def speakerWorkletMessage_def sendAudioPacket_def ws_is_open_def
      onopen_def websocket_send_def transmit_def startListening_resumed_def
      sendAudioPacket_packet_def uint8_set_def SOURCE_MIC_def SOURCE_SPEAKER_def Let_def)

lemma sample_run_open:
  "ws_is_open (run sample_session (init_client None []))"
  "websocket (run sample_session (init_client None [])) = Some 0"
  by (simp_all add: run_def sample_session_def sample_env_def init_client_def startListening_def
      startAudioCapture_def setStatus_def updateSourceIndicators_def connectWebSocket_def
      micWorkletMessage_def speakerWorkletMessage_def sendAudioPacket_def ws_is_open_def
      onopen_def websocket_send_def transmit_def startListening_resumed_def
      sendAudioPacket_packet_def uint8_set_def SOURCE_MIC_def SOURCE_SPEAKER_def Let_def)

lemma sendAudioPacket_open:
  assumes "ws_is_open c"
  shows "\<exists>i. websocket c = Some i \<and> i < length (sockets c) \<and>
           sendAudioPacket sourceId pcm c =
             c\<lparr>sockets := transmit i (Binary (word_of_nat sourceId # pcm)) (sockets c)\<rparr>"
  using assms
  by (auto simp: sendAudioPacket_def sendAudioPacket_packet_eq ws_is_open_def websocket_send_def
      split: option.splits)

lemma sendAudioPacket_not_open: "\<not> ws_is_open c \<Longrightarrow> sendAudioPacket sourceId pcm c = c"
  by (simp add: sendAudioPacket_def)

lemma source_byte:
  "sourceId = SOURCE_MIC \<or> sourceId = SOURCE_SPEAKER \<Longrightarrow> unat (word_of_nat sourceId :: byte) = sourceId"
  by (auto simp: SOURCE_MIC_def SOURCE_SPEAKER_def)

lemma frames_tagged_binary:
  "frames_tagged s \<Longrightarrow> Binary p \<in> set (sent s) \<Longrightarrow> p \<noteq> [] \<and> (hd p = 0x01 \<or> hd p = 0x02)"
proof -
  assume "frames_tagged s" "Binary p \<in> set (sent s)"
  then have "tagged (Binary p)" by (auto simp: frames_tagged_def list_all_iff)
  then show ?thesis by (cases p) auto
qed

lemma run_sockets_nth:
  assumes "s \<in> set (sockets (run es (init_client cid points)))"
  shows "\<exists>i. socket_ok (websocket (run es (init_client cid points))) i s"
proof -
  from assms obtain i where "i < length (sockets (run es (init_client cid points)))"
    "s = sockets (run es (init_client cid points)) ! i" by (auto simp: in_set_conv_nth)
  with sockets_ok_nth [OF run_ok [OF init_client_ok]] show ?thesis by blast
qed

text \<open>
  Claim C1. For every PCM buffer and every source id among \<^verbatim>\<open>0x01\<close> (microphone) and
  \<^verbatim>\<open>0x02\<close> (speaker), the message that \<^verbatim>\<open>sendAudioPacket\<close> builds has length one
  plus the payload length, begins with the source id and continues with the PCM bytes
  unchanged, and that message is what an open socket transmits. Whatever events occur,
  every binary frame that any socket of the client has transmitted begins with the byte
  \<^verbatim>\<open>0x01\<close> or \<^verbatim>\<open>0x02\<close>.
\<close>

theorem sendAudioPacket_frame:
  "(sourceId = SOURCE_MIC \<or> sourceId = SOURCE_SPEAKER \<longrightarrow>
      (\<exists>packet. sendAudioPacket_packet sourceId pcm = Some packet \<and>
         length packet = 1 + length pcm \<and> unat (packet ! 0) = sourceId \<and> drop 1 packet = pcm \<and>
         (ws_is_open c \<longrightarrow>
            (\<exists>i. websocket c = Some i \<and>
               sockets (sendAudioPacket sourceId pcm c) = transmit i (Binary packet) (sockets c))))) \<and>
   (\<forall>s \<in> set (sockets (run es (init_client cid points))).
      \<forall>p. Binary p \<in> set (sent s) \<longrightarrow> p \<noteq> [] \<and> (hd p = 0x01 \<or> hd p = 0x02))"
proof -
  let ?packet = "word_of_nat sourceId # pcm :: byte list"
  have built: "sendAudioPacket_packet sourceId pcm = Some ?packet"
    by (rule sendAudioPacket_packet_eq)
  have shape: "length ?packet = 1 + length pcm" "drop 1 ?packet = pcm"
    by simp_all
  have sends: "ws_is_open c \<longrightarrow> (\<exists>i. websocket c = Some i \<and>
          sockets (sendAudioPacket sourceId pcm c) = transmit i (Binary ?packet) (sockets c))"
  proof
    assume "ws_is_open c"
    from sendAudioPacket_open [OF this, of sourceId pcm] show "\<exists>i. websocket c = Some i \<and>
          sockets (sendAudioPacket sourceId pcm c) = transmit i (Binary ?packet) (sockets c)"
      by auto
  qed
  have first: "sourceId = SOURCE_MIC \<or> sourceId = SOURCE_SPEAKER \<longrightarrow>
      (\<exists>packet. sendAudioPacket_packet sourceId pcm = Some packet \<and>
         length packet = 1 + length pcm \<and> unat (packet ! 0) = sourceId \<and> drop 1 packet = pcm \<and>
         (ws_is_open c \<longrightarrow>
            (\<exists>i. websocket c = Some i \<and>
               sockets (sendAudioPacket sourceId pcm c) = transmit i (Binary packet) (sockets c))))"
  proof
    assume "sourceId = SOURCE_MIC \<or> sourceId = SOURCE_SPEAKER"
    then have "unat (?packet ! 0) = sourceId" by (simp add: source_byte)
    with built shape sends show "\<exists>packet. sendAudioPacket_packet sourceId pcm = Some packet \<and>
         length packet = 1 + length pcm \<and> unat (packet ! 0) = sourceId \<and> drop 1 packet = pcm \<and>
         (ws_is_open c \<longrightarrow>
            (\<exists>i. websocket c = Some i \<and>
               sockets (sendAudioPacket sourceId pcm c) = transmit i (Binary packet) (sockets c)))"
      by blast
  qed
  have second: "\<forall>s \<in> set (sockets (run es (init_client cid points))).
      \<forall>p. Binary p \<in> set (sent s) \<longrightarrow> p \<noteq> [] \<and> (hd p = 0x01 \<or> hd p = 0x02)"
  proof (intro ballI allI impI)
    fix s p
    assume "s \<in> set (sockets (run es (init_client cid points)))" "Binary p \<in> set (sent s)"
    with run_sockets_nth frames_tagged_binary show "p \<noteq> [] \<and> (hd p = 0x01 \<or> hd p = 0x02)"
      unfolding socket_ok_def by blast
  qed
  from first second show ?thesis by (rule conjI)
qed

theorem sendAudioPacket_frame_witness:
  "sendAudioPacket_packet SOURCE_SPEAKER [0x34, 0x12] = Some [0x02, 0x34, 0x12] \<and>
   ws_is_open (run sample_session (init_client None [])) \<and>
   map sent (sockets (sendAudioPacket SOURCE_SPEAKER [0x34, 0x12]
                        (run sample_session (init_client None [])))) =
     [[Text (Config 24000 [''mic'', ''speaker''] ''live''), Binary [0x01, 0x34, 0x12],
       Binary [0x02, 0xff, 0x7f], Binary [0x02, 0x34, 0x12]]] \<and>
   Binary [0x01, 0x34, 0x12] \<in> set (sent (hd (sockets (run sample_session (init_client None [])))))"
  using sendAudioPacket_frame [of SOURCE_SPEAKER "[0x34, 0x12]"
      "run sample_session (init_client None [])" sample_session None "[]"]
  by (auto simp: sample_run sample_run_open transmit_def sendAudioPacket_packet_eq SOURCE_SPEAKER_def)

section \<open>The config message comes first\<close>

lemma config_first_binary:
  assumes "config_first s" "k < length (sent s)" "is_binary (sent s ! k)"
  shows "0 < k \<and> is_config (hd (sent s))"
proof (cases "sent s")
  case Nil
  with assms(2) show ?thesis by simp
next
  case (Cons f fs)
  with assms(1) have cfg: "is_config f" by (simp add: config_first_def)
  have "k \<noteq> 0"
  proof
    assume "k = 0"
    with Cons assms(3) have "is_binary f" by simp
    with cfg show False by (cases f rule: is_config.cases) simp_all
  qed
  with Cons cfg show ?thesis by simp
qed

lemma onopen_fresh_socket:
  "\<exists>rest. sent (sockets (onopen (length (sockets c)) coaching simulation
                           (connectWebSocket (sampleRate, sources, mode) c)) ! length (sockets c)) =
           Text (Config sampleRate sources (if mode = [] then ''live'' else mode)) # rest"
  by (simp add: onopen_def connectWebSocket_def websocket_send_def transmit_def Let_def
      startListening_resumed_def startListening_catch_def setStatus_def stopAudioCapture_def
      updateSourceIndicators_def)

text \<open>
  Claim C6. On every connection the config message, carrying the sample rate, the
  sources and the mode of the \<^verbatim>\<open>connectWebSocket\<close> call, is the first frame the
  client transmits and so precedes every binary audio frame: whatever events occur, a
  socket that is still connecting has transmitted nothing and a binary frame is never at
  the head of what a socket has transmitted, where the config message stands;
  \<^verbatim>\<open>sendAudioPacket\<close> does nothing unless the socket is open; and the open handler of a
  new connection transmits the config message first.
\<close>

theorem config_precedes_audio:
  "(\<forall>s \<in> set (sockets (run es (init_client cid points))).
      (readyState s = CONNECTING \<longrightarrow> sent s = []) \<and>
      (\<forall>k < length (sent s). is_binary (sent s ! k) \<longrightarrow> 0 < k \<and> is_config (hd (sent s)))) \<and>
   (\<not> ws_is_open c \<longrightarrow> sendAudioPacket sourceId pcm c = c) \<and>
   (\<exists>rest. sent (sockets (onopen (length (sockets c)) coaching simulation
                            (connectWebSocket (sampleRate, sources, mode) c)) ! length (sockets c)) =
            Text (Config sampleRate sources (if mode = [] then ''live'' else mode)) # rest)"
proof -
  have traces: "\<forall>s \<in> set (sockets (run es (init_client cid points))).
      (readyState s = CONNECTING \<longrightarrow> sent s = []) \<and>
      (\<forall>k < length (sent s). is_binary (sent s ! k) \<longrightarrow> 0 < k \<and> is_config (hd (sent s)))"
  proof
    fix s assume "s \<in> set (sockets (run es (init_client cid points)))"
    then obtain i where "socket_ok (websocket (run es (init_client cid points))) i s"
      using run_sockets_nth by blast
    then have "readyState s = CONNECTING \<longrightarrow> sent s = []" "config_first s"
      by (simp_all add: socket_ok_def)
    then show "(readyState s = CONNECTING \<longrightarrow> sent s = []) \<and>
      (\<forall>k < length (sent s). is_binary (sent s ! k) \<longrightarrow> 0 < k \<and> is_config (hd (sent s)))"
      using config_first_binary by blast
  qed
  have closed: "\<not> ws_is_open c \<longrightarrow> sendAudioPacket sourceId pcm c = c"
    by (simp add: sendAudioPacket_not_open)
  from traces closed onopen_fresh_socket show ?thesis by (intro conjI)
qed

theorem config_precedes_audio_witness:
  "map (\<lambda>s. (readyState s, sent s)) (sockets (run (take 2 sample_session) (init_client None []))) =
     [(CONNECTING, [])] \<and>
   \<not> ws_is_open (run (take 2 sample_session) (init_client None [])) \<and>
   map sent (sockets (run sample_session (init_client None []))) =
     [[Text (Config 24000 [''mic'', ''speaker''] ''live''), Binary [0x01, 0x34, 0x12],
       Binary [0x02, 0xff, 0x7f]]] \<and>
   is_binary (sent (hd (sockets (run sample_session (init_client None [])))) ! 1)"
  using config_precedes_audio [of sample_session None "[]"
      "run (take 2 sample_session) (init_client None [])" SOURCE_MIC "[0x10, 0x00]"]
    config_precedes_audio [of "take 2 sample_session" None "[]"]
  by (simp add: sample_run)
     (simp add: run_def sample_session_def sample_env_def init_client_def startListening_def
      startAudioCapture_def setStatus_def updateSourceIndicators_def connectWebSocket_def
      micWorkletMessage_def sendAudioPacket_def ws_is_open_def Let_def)

section \<open>Losing the system audio\<close>

lemma startAudioCapture_mic_only:
  assumes "\<not> simulationToggle_checked env" "getUserMedia_rejects env = None"
    "addModule_rejects env = None"
    "\<not> systemAudioCheckbox_checked env \<or> getDisplayMedia_result env = DisplayRejected err \<or>
     getDisplayMedia_result env = DisplayStream 0"
  shows "startAudioCapture env c =
           (Inr (audioContext_sampleRate env, [''mic''], ''live''),
            updateSourceIndicators
              (c\<lparr>micStream := True, hasSpeakerAudio := False,
                 speakerStream := (if systemAudioCheckbox_checked env then False else speakerStream c),
                 audioContext := True, micWorklet := True\<rparr>))"
  using assms by (auto simp: startAudioCapture_def Let_def)

text \<open>
  Claim C9. In live mode, when system audio capture fails or is cancelled (the
  \<^verbatim>\<open>getDisplayMedia\<close> promise rejects, or the shared stream has no audio track) while
  the microphone and the audio graph are set up normally, \<^verbatim>\<open>startAudioCapture\<close> still
  returns, with the microphone as the only source, \<^verbatim>\<open>hasSpeakerAudio\<close> false, the
  speaker indicator inactive and the microphone worklet installed; the status is not
  set to an error and \<^verbatim>\<open>startListening\<close> goes on to connect with that configuration.
  When the system audio track ends during a session, only \<^verbatim>\<open>hasSpeakerAudio\<close> and the
  speaker indicator change: the microphone stream and worklet, the listening flag, the
  status and the socket stay as they are, and a microphone chunk is transmitted exactly
  as it would have been.
\<close>

theorem system_audio_failure_keeps_mic:
  "(\<not> simulationToggle_checked env \<and> systemAudioCheckbox_checked env \<and>
    getUserMedia_rejects env = None \<and> addModule_rejects env = None \<and>
    (getDisplayMedia_result env = DisplayRejected err \<or> getDisplayMedia_result env = DisplayStream 0)
    \<longrightarrow>
      fst (startAudioCapture env c) = Inr (audioContext_sampleRate env, [''mic''], ''live'') \<and>
      \<not> hasSpeakerAudio (snd (startAudioCapture env c)) \<and>
      \<not> speakerIndicator (snd (startAudioCapture env c)) \<and>
      micStream (snd (startAudioCapture env c)) \<and> micWorklet (snd (startAudioCapture env c)) \<and>
      status (snd (startAudioCapture env c)) = status c \<and>
      (\<not> isListening c \<longrightarrow>
         status (startListening env c) = (''connecting'', ''Starting...'') \<and>
         sockets (startListening env c) = sockets c @
           [\<lparr>readyState = CONNECTING, sent = [],
             config_args = (audioContext_sampleRate env, [''mic''], ''live''),
             promise_pending = True\<rparr>])) \<and>
   (\<not> hasSpeakerAudio (speakerTrackEnded c) \<and> \<not> speakerIndicator (speakerTrackEnded c) \<and>
    micStream (speakerTrackEnded c) = micStream c \<and> micWorklet (speakerTrackEnded c) = micWorklet c \<and>
    isListening (speakerTrackEnded c) = isListening c \<and> status (speakerTrackEnded c) = status c \<and>
    websocket (speakerTrackEnded c) = websocket c \<and> sockets (speakerTrackEnded c) = sockets c \<and>
    sockets (micWorkletMessage pcm (speakerTrackEnded c)) = sockets (micWorkletMessage pcm c))"
proof -
  have ended: "\<not> hasSpeakerAudio (speakerTrackEnded c) \<and> \<not> speakerIndicator (speakerTrackEnded c) \<and>
    micStream (speakerTrackEnded c) = micStream c \<and> micWorklet (speakerTrackEnded c) = micWorklet c \<and>
    isListening (speakerTrackEnded c) = isListening c \<and> status (speakerTrackEnded c) = status c \<and>
    websocket (speakerTrackEnded c) = websocket c \<and> sockets (speakerTrackEnded c) = sockets c \<and>
    sockets (micWorkletMessage pcm (speakerTrackEnded c)) = sockets (micWorkletMessage pcm c)"
    by (auto simp: speakerTrackEnded_def updateSourceIndicators_def micWorkletMessage_def
        sendAudioPacket_def ws_is_open_def websocket_send_def split: option.splits)
  have capture: "\<not> simulationToggle_checked env \<and> systemAudioCheckbox_checked env \<and>
    getUserMedia_rejects env = None \<and> addModule_rejects env = None \<and>
    (getDisplayMedia_result env = DisplayRejected err \<or> getDisplayMedia_result env = DisplayStream 0)
    \<longrightarrow>
      fst (startAudioCapture env c) = Inr (audioContext_sampleRate env, [''mic''], ''live'') \<and>
      \<not> hasSpeakerAudio (snd (startAudioCapture env c)) \<and>
      \<not> speakerIndicator (snd (startAudioCapture env c)) \<and>
      micStream (snd (startAudioCapture env c)) \<and> micWorklet (snd (startAudioCapture env c)) \<and>
      status (snd (startAudioCapture env c)) = status c \<and>
      (\<not> isListening c \<longrightarrow>
         status (startListening env c) = (''connecting'', ''Starting...'') \<and>
         sockets (startListening env c) = sockets c @
           [\<lparr>readyState = CONNECTING, sent = [],
             config_args = (audioContext_sampleRate env, [''mic''], ''live''),
             promise_pending = True\<rparr>])"
  proof
    assume a: "\<not> simulationToggle_checked env \<and> systemAudioCheckbox_checked env \<and>
      getUserMedia_rejects env = None \<and> addModule_rejects env = None \<and>
      (getDisplayMedia_result env = DisplayRejected err \<or> getDisplayMedia_result env = DisplayStream 0)"
    then have eq: "\<And>c. startAudioCapture env c =
           (Inr (audioContext_sampleRate env, [''mic''], ''live''),
            updateSourceIndicators
              (c\<lparr>micStream := True, hasSpeakerAudio := False,
                 speakerStream := (if systemAudioCheckbox_checked env then False else speakerStream c),
                 audioContext := True, micWorklet := True\<rparr>))"
      by (intro startAudioCapture_mic_only) auto
    show "fst (startAudioCapture env c) = Inr (audioContext_sampleRate env, [''mic''], ''live'') \<and>
      \<not> hasSpeakerAudio (snd (startAudioCapture env c)) \<and>
      \<not> speakerIndicator (snd (startAudioCapture env c)) \<and>
      micStream (snd (startAudioCapture env c)) \<and> micWorklet (snd (startAudioCapture env c)) \<and>
      status (snd (startAudioCapture env c)) = status c \<and>
      (\<not> isListening c \<longrightarrow>
         status (startListening env c) = (''connecting'', ''Starting...'') \<and>
         sockets (startListening env c) = sockets c @
           [\<lparr>readyState = CONNECTING, sent = [],
             config_args = (audioContext_sampleRate env, [''mic''], ''live''),
             promise_pending = True\<rparr>])"
      by (simp add: eq startListening_def updateSourceIndicators_def setStatus_def
          connectWebSocket_def Let_def)
  qed
  from capture ended show ?thesis by (rule conjI)
qed


lemma sample_state:
  "run sample_session (init_client None []) =
     \<lparr>sockets =
        [\<lparr>readyState = OPEN,
          sent = [Text (Config 24000 [''mic'', ''speaker''] ''live''),
                  Binary [0x01, 0x34, 0x12], Binary [0x02, 0xff, 0x7f]],
          config_args = (24000, [''mic'', ''speaker''], ''live''), promise_pending = False\<rparr>],
      websocket = Some 0, isListening = True, waitingForSummary = False,
      hasSpeakerAudio = True, micStream = True, speakerStream = True,
      audioContext = True, micWorklet = True, speakerWorklet = True,
      micIndicator = True, speakerIndicator = True,
      status = (''connected'', ''Listening - Mic + System Audio''),
      modalLog = [], summaryTimeout = None, timers = [], nextTimer = 1,
      now = 0, clientContextId = None, discussionPoints = []\<rparr>"
  by (simp add: run_def sample_session_def sample_env_def init_client_def startListening_def
      startAudioCapture_def setStatus_def updateSourceIndicators_def connectWebSocket_def
      micWorkletMessage_def speakerWorkletMessage_def sendAudioPacket_def ws_is_open_def
      onopen_def websocket_send_def transmit_def startListening_resumed_def
      sendAudioPacket_packet_def uint8_set_def SOURCE_MIC_def SOURCE_SPEAKER_def Let_def)

theorem system_audio_failure_keeps_mic_witness:
  "startAudioCapture mic_only_env (init_client None []) =
     (Inr (24000, [''mic''], ''live''),
      (init_client None [])\<lparr>micStream := True, audioContext := True, micWorklet := True\<rparr>) \<and>
   \<not> simulationToggle_checked mic_only_env \<and> systemAudioCheckbox_checked mic_only_env \<and>
   getDisplayMedia_result mic_only_env = DisplayRejected ''Permission denied'' \<and>
   status (startListening mic_only_env (init_client None [])) = (''connecting'', ''Starting...'') \<and>
   map sent (sockets (micWorkletMessage [0x01, 0x00]
       (speakerTrackEnded (run sample_session (init_client None []))))) =
     [[Text (Config 24000 [''mic'', ''speaker''] ''live''), Binary [0x01, 0x34, 0x12],
       Binary [0x02, 0xff, 0x7f], Binary [0x01, 0x01, 0x00]]]"
proof -
  have env: "\<not> simulationToggle_checked mic_only_env" "systemAudioCheckbox_checked mic_only_env"
    "getUserMedia_rejects mic_only_env = None" "addModule_rejects mic_only_env = None"
    "getDisplayMedia_result mic_only_env = DisplayRejected ''Permission denied''"
    "audioContext_sampleRate mic_only_env = 24000"
    by (simp_all add: mic_only_env_def sample_env_def)
  have init: "\<not> isListening (init_client None [])" "status (init_client None []) = (''idle'', ''Ready'')"
    by (simp_all add: init_client_def)
  have capture: "startAudioCapture mic_only_env (init_client None []) =
     (Inr (24000, [''mic''], ''live''),
      (init_client None [])\<lparr>micStream := True, audioContext := True, micWorklet := True\<rparr>)"
    by (simp add: startAudioCapture_mic_only [where err = "''Permission denied''"] env)
       (simp add: init_client_def updateSourceIndicators_def)
  have mic: "map sent (sockets (micWorkletMessage [0x01, 0x00] (run sample_session (init_client None [])))) =
     [[Text (Config 24000 [''mic'', ''speaker''] ''live''), Binary [0x01, 0x34, 0x12],
       Binary [0x02, 0xff, 0x7f], Binary [0x01, 0x01, 0x00]]]"
    by (simp add: sample_state micWorkletMessage_def sendAudioPacket_def ws_is_open_def
        websocket_send_def transmit_def sendAudioPacket_packet_eq SOURCE_MIC_def)
  from system_audio_failure_keeps_mic [of mic_only_env "''Permission denied''" "init_client None []"]
    system_audio_failure_keeps_mic [of mic_only_env "''Permission denied''"
      "run sample_session (init_client None [])" "[0x01, 0x00]"]
  show ?thesis using env init capture mic by simp
qed

section \<open>The summary timeout\<close>


lemma clock_simple [simp]:
  "clock (setStatus a b c) = clock c"
  "clock (stopAudioCapture c) = clock c"
  "clock (updateSourceIndicators c) = clock c"
  "clock (startListening_catch m c) = clock c"
  "clock (connectWebSocket cfg c) = clock c"
  "clock (ws_close i c) = clock c"
  "clock (showPostCallModal c) = clock c"
  "clock (speakerTrackEnded c) = clock c"
  "clock (clearAll_client c) = clock c"
  by (simp_all add: clock_def setStatus_def stopAudioCapture_def updateSourceIndicators_def
      startListening_catch_def connectWebSocket_def ws_close_def showPostCallModal_def
      speakerTrackEnded_def clearAll_client_def)

lemma clock_update [simp]:
  "clock (c\<lparr>sockets := ss\<rparr>) = clock c"
  "clock (c\<lparr>websocket := g\<rparr>) = clock c"
  "clock (c\<lparr>isListening := b\<rparr>) = clock c"
  "clock (c\<lparr>waitingForSummary := b\<rparr>) = clock c"
  "clock (c\<lparr>modalLog := l\<rparr>) = clock c"
  "clock (c\<lparr>discussionPoints := ps\<rparr>) = clock c"
  "clock (c\<lparr>summaryTimeout := h\<rparr>) = clock c"
  by (simp_all add: clock_def)

lemma clock_startAudioCapture [simp]: "clock (snd (startAudioCapture env c)) = clock c"
  by (simp add: startAudioCapture_def Let_def clock_def updateSourceIndicators_def
      split: option.splits display_result.splits prod.splits)

lemma clock_websocket_send: "websocket_send f c = Inr c' \<Longrightarrow> clock c' = clock c"
  by (auto simp: websocket_send_def split: option.splits if_splits readyState.splits)

lemma clock_send_when_open [simp]: "clock (send_when_open f c) = clock c"
  by (auto simp: send_when_open_def split: sum.splits dest: clock_websocket_send)

lemma clock_sendAudioPacket [simp]: "clock (sendAudioPacket sourceId pcm c) = clock c"
  by (auto simp: sendAudioPacket_def split: sum.splits option.splits dest: clock_websocket_send)

lemma clock_finishStop [simp]: "clock (finishStop c) = clock c"
  by (simp add: finishStop_def Let_def split: option.splits)

lemma clock_startListening [simp]: "clock (startListening env c) = clock c"
proof -
  obtain r c1 where r: "startAudioCapture env (setStatus ''connecting'' ''Starting...'' c) = (r, c1)"
    by (cases "startAudioCapture env (setStatus ''connecting'' ''Starting...'' c)")
  with clock_startAudioCapture [of env "setStatus ''connecting'' ''Starting...'' c"]
  have "clock c1 = clock c" by simp
  with r show ?thesis by (simp add: startListening_def Let_def split: sum.splits)
qed

lemma clock_startListening_resumed [simp]: "clock (startListening_resumed a b c) = clock c"
  by (auto simp: startListening_resumed_def Let_def split: sum.splits dest!: clock_websocket_send)

lemma clock_onopen [simp]: "clock (onopen i a b c) = clock c"
  by (auto simp: onopen_def Let_def split: sum.splits prod.splits dest!: clock_websocket_send)

lemma clock_onerror [simp]: "clock (onerror i c) = clock c"
  by (simp add: onerror_def Let_def)

lemma clock_onclose [simp]: "clock (onclose i c) = clock c"
  by (simp add: onclose_def Let_def)

lemma clock_sendClientContext [simp]: "clock (sendClientContext c) = clock c"
  by (simp add: sendClientContext_def split: option.splits)

lemma clock_activateTrackerWithPoints_send [simp]:
  "clock (activateTrackerWithPoints_send ps c) = clock c"
  by (simp add: activateTrackerWithPoints_send_def Let_def split: option.splits)

subsection \<open>Firing\<close>

lemma fire_fields [simp]:
  "timers (fire h c) = filter (\<lambda>t. fst t \<noteq> h) (timers c)"
  "now (fire h c) = now c" "nextTimer (fire h c) = nextTimer c"
  "summaryTimeout (fire h c) = summaryTimeout c"
  "waitingForSummary (fire h c) = (waitingForSummary c \<and> h \<notin> fst ` set (timers c))"
  "modalLog (fire h c) =
     (if waitingForSummary c \<and> h \<in> fst ` set (timers c) then modalLog c @ [TimedOut] else modalLog c)"
proof -
  have "h \<notin> fst ` set (timers c) \<Longrightarrow> filter (\<lambda>t. fst t \<noteq> h) (timers c) = timers c"
    by (induction "timers c") (auto simp: filter_id_conv)
  then show "timers (fire h c) = filter (\<lambda>t. fst t \<noteq> h) (timers c)"
    by (auto simp: fire_def summaryTimeoutCallback_def)
qed (auto simp: fire_def summaryTimeoutCallback_def)

lemma fold_fire_fields [simp]:
  "timers (fold fire hs c) = filter (\<lambda>t. fst t \<notin> set hs) (timers c)"
  "now (fold fire hs c) = now c" "nextTimer (fold fire hs c) = nextTimer c"
  "summaryTimeout (fold fire hs c) = summaryTimeout c"
  by (induction hs arbitrary: c) (auto intro: filter_cong)



subsection \<open>Time passing\<close>

lemma elapse_fields [simp]:
  "now (elapse d c) = now c + d" "nextTimer (elapse d c) = nextTimer c"
  "summaryTimeout (elapse d c) = summaryTimeout c"
  by (simp_all add: elapse_def Let_def)






subsection \<open>Stop and summary\<close>


lemma ws_is_open_isListening [simp]: "ws_is_open (c\<lparr>isListening := b\<rparr>) = ws_is_open c"
  by (simp add: ws_is_open_def split: option.splits)


lemma handlePostCallSummary_fields [simp]:
  "\<not> waitingForSummary (handlePostCallSummary err c)"
  "summaryTimeout (handlePostCallSummary err c) = None"
  "modalLog (handlePostCallSummary err c) = modalLog c @ [summary_content err]"
  "now (handlePostCallSummary err c) = now c"
  "nextTimer (handlePostCallSummary err c) = nextTimer c"
  "timers (handlePostCallSummary err c) =
     (case summaryTimeout c of None \<Rightarrow> timers c
      | Some h \<Rightarrow> filter (\<lambda>t. fst t \<noteq> h) (timers c))"
  by (simp_all add: handlePostCallSummary_def Let_def clearTimeout_def split: option.splits)






subsection \<open>Events during the wait\<close>

lemma wait_view_simple [simp]:
  "wait_view (setStatus a b c) = wait_view c"
  "wait_view (stopAudioCapture c) = wait_view c"
  "wait_view (updateSourceIndicators c) = wait_view c"
  "wait_view (startListening_catch m c) = wait_view c"
  "wait_view (connectWebSocket cfg c) = wait_view c"
  "wait_view (ws_close i c) = wait_view c"
  "wait_view (speakerTrackEnded c) = wait_view c"
  "wait_view (clearAll_client c) = wait_view c"
  by (simp_all add: wait_view_def setStatus_def stopAudioCapture_def updateSourceIndicators_def
      startListening_catch_def connectWebSocket_def ws_close_def speakerTrackEnded_def
      clearAll_client_def)

lemma wait_view_update [simp]:
  "wait_view (c\<lparr>sockets := ss\<rparr>) = wait_view c"
  "wait_view (c\<lparr>websocket := g\<rparr>) = wait_view c"
  "wait_view (c\<lparr>isListening := b\<rparr>) = wait_view c"
  "wait_view (c\<lparr>discussionPoints := ps\<rparr>) = wait_view c"
  "wait_view (c\<lparr>timers := ts\<rparr>) = wait_view c"
  "wait_view (c\<lparr>now := n\<rparr>) = wait_view c"
  by (simp_all add: wait_view_def)

lemma wait_view_startAudioCapture [simp]:
  "wait_view (snd (startAudioCapture env c)) = wait_view c"
  by (simp add: startAudioCapture_def Let_def wait_view_def updateSourceIndicators_def
      split: option.splits display_result.splits prod.splits)

lemma wait_view_websocket_send: "websocket_send f c = Inr c' \<Longrightarrow> wait_view c' = wait_view c"
  by (auto simp: websocket_send_def split: option.splits if_splits readyState.splits)

lemma wait_view_send_when_open [simp]: "wait_view (send_when_open f c) = wait_view c"
  by (auto simp: send_when_open_def split: sum.splits dest: wait_view_websocket_send)

lemma wait_view_sendAudioPacket [simp]: "wait_view (sendAudioPacket sourceId pcm c) = wait_view c"
  by (auto simp: sendAudioPacket_def split: sum.splits option.splits dest: wait_view_websocket_send)

lemma wait_view_startListening [simp]: "wait_view (startListening env c) = wait_view c"
proof -
  obtain r c1 where r: "startAudioCapture env (setStatus ''connecting'' ''Starting...'' c) = (r, c1)"
    by (cases "startAudioCapture env (setStatus ''connecting'' ''Starting...'' c)")
  with wait_view_startAudioCapture [of env "setStatus ''connecting'' ''Starting...'' c"]
  have "wait_view c1 = wait_view c" by simp
  with r show ?thesis by (simp add: startListening_def Let_def split: sum.splits)
qed

lemma wait_view_startListening_resumed [simp]:
  "wait_view (startListening_resumed a b c) = wait_view c"
  by (auto simp: startListening_resumed_def Let_def split: sum.splits
      dest!: wait_view_websocket_send)

lemma wait_view_onopen [simp]: "wait_view (onopen i a b c) = wait_view c"
  by (auto simp: onopen_def Let_def split: sum.splits prod.splits dest!: wait_view_websocket_send)

lemma wait_view_onerror [simp]: "wait_view (onerror i c) = wait_view c"
  by (simp add: onerror_def Let_def)

lemma wait_view_sendClientContext [simp]: "wait_view (sendClientContext c) = wait_view c"
  by (simp add: sendClientContext_def split: option.splits)

lemma wait_view_activateTrackerWithPoints_send [simp]:
  "wait_view (activateTrackerWithPoints_send ps c) = wait_view c"
  by (simp add: activateTrackerWithPoints_send_def Let_def split: option.splits)



lemma run_Cons: "run (e # es) c = run es (step e c)"
  by (simp add: run_def)

lemma run_Nil: "run [] c = c"
  by (simp add: run_def)






lemma finishStop_wait [simp]:
  "\<not> waitingForSummary (finishStop c)" "modalLog (finishStop c) = modalLog c"
  by (simp_all add: finishStop_def Let_def setStatus_def updateSourceIndicators_def
      stopAudioCapture_def ws_close_def split: option.splits)



lemma summary_content_not_TimedOut [simp]: "summary_content err \<noteq> TimedOut"
  by (cases err) simp_all









text \<open>
  Neither \<^verbatim>\<open>onclose\<close> nor \<^verbatim>\<open>finishStop\<close> clears the timeout, so it stays pending when
  the wait ends that way and fires in a later wait: here the second request is made
  at 5 seconds and its timeout failure is shown at 30 seconds.
\<close>

lemma pending_timeout_outlives_wait:
  "timers (run (sample_session @
       [StopClicked, Elapse 5000, WsClose 0, StartClicked sample_env, WsOpen 1 False False,
        StopClicked])
     (init_client None [])) = [(1, 30000), (2, 35000)] \<and>
   modalLog (run (sample_session @
       [StopClicked, Elapse 5000, WsClose 0, StartClicked sample_env, WsOpen 1 False False,
        StopClicked, Elapse 25000])
     (init_client None [])) = [Loading, ConnectionLost, Loading, TimedOut]"
  by (simp add: run_append run_Cons run_Nil sample_state onclose_def stopAudioCapture_def
      elapse_def fire_def summaryTimeoutCallback_def stopListening_def showPostCallModal_def
      setTimeout_def sample_env_def startListening_def startAudioCapture_def
      connectWebSocket_def onopen_def startListening_resumed_def
      updateSourceIndicators_def setStatus_def
      ws_is_open_def websocket_send_def transmit_def Let_def)

section \<open>Properties of the to-do accumulation\<close>

lemma set_set_add [simp]: "set (set_add x xs) = insert x (set xs)"
  by (auto simp: set_add_def)

lemma distinct_set_add [simp]: "distinct (set_add x xs) = distinct xs"
  by (simp add: set_add_def)

lemma set_add_member: "x \<in> set xs \<Longrightarrow> set_add x xs = xs"
  by (simp add: set_add_def)

lemma fold_push_known:
  "set (knownTodoItems (fold (\<lambda>item t.
          t\<lparr>knownTodoItems := set_add item (knownTodoItems t),
            accumulatedTodoItems := accumulatedTodoItems t @
              [\<lparr>todo_text = item, todo_time = time\<rparr>]\<rparr>) xs t)) = set (knownTodoItems t) \<union> set xs"
  by (induction xs arbitrary: t) auto

lemma fold_push_known_distinct:
  "distinct (knownTodoItems (fold (\<lambda>item t.
          t\<lparr>knownTodoItems := set_add item (knownTodoItems t),
            accumulatedTodoItems := accumulatedTodoItems t @
              [\<lparr>todo_text = item, todo_time = time\<rparr>]\<rparr>) xs t)) = distinct (knownTodoItems t)"
  by (induction xs arbitrary: t) auto

lemma fold_push_accumulated:
  "map todo_text (accumulatedTodoItems (fold (\<lambda>item t.
          t\<lparr>knownTodoItems := set_add item (knownTodoItems t),
            accumulatedTodoItems := accumulatedTodoItems t @
              [\<lparr>todo_text = item, todo_time = time\<rparr>]\<rparr>) xs t)) =
   map todo_text (accumulatedTodoItems t) @ xs"
  by (induction xs arbitrary: t) auto

lemma handleTodoUpdate_texts:
  "map todo_text (accumulatedTodoItems (handleTodoUpdate items time t)) =
     map todo_text (accumulatedTodoItems t) @
     (case items of None \<Rightarrow> [] | Some xs \<Rightarrow> filter (\<lambda>item. item \<notin> set (knownTodoItems t)) xs)"
  by (auto simp: handleTodoUpdate_def Let_def fold_push_accumulated split: option.splits)

lemma handleTodoUpdate_known:
  "set (knownTodoItems (handleTodoUpdate items time t)) =
     set (knownTodoItems t) \<union> (case items of None \<Rightarrow> {} | Some xs \<Rightarrow> set xs)"
proof (cases items)
  case None
  then show ?thesis by (simp add: handleTodoUpdate_def)
next
  case (Some xs)
  have "filter (\<lambda>item. item \<notin> set (knownTodoItems t)) xs = [] \<Longrightarrow> set xs \<subseteq> set (knownTodoItems t)"
    by (auto simp: filter_empty_conv)
  with Some show ?thesis
    by (auto simp: handleTodoUpdate_def Let_def fold_push_known)
qed

text \<open>
  The part of the deduplication that holds: the set of known texts is the set of texts
  accumulated, after any sequence of updates.
\<close>

lemma handleTodoUpdate_consistent:
  assumes "set (knownTodoItems t) = set (map todo_text (accumulatedTodoItems t))"
  shows "set (knownTodoItems (handleTodoUpdate items time t)) =
         set (map todo_text (accumulatedTodoItems (handleTodoUpdate items time t)))"
  using assms by (auto simp: handleTodoUpdate_known handleTodoUpdate_texts split: option.splits)

lemma handleTodoUpdates_consistent:
  assumes "set (knownTodoItems t) = set (map todo_text (accumulatedTodoItems t))"
  shows "set (knownTodoItems (handleTodoUpdates msgs t)) =
         set (map todo_text (accumulatedTodoItems (handleTodoUpdates msgs t)))"
  using assms unfolding handleTodoUpdates_def
proof (induction msgs arbitrary: t)
  case Nil
  then show ?case by simp
next
  case (Cons m msgs)
  obtain items time where m: "m = (items, time)" by (cases m)
  from Cons.prems have "set (knownTodoItems (handleTodoUpdate items time t)) =
         set (map todo_text (accumulatedTodoItems (handleTodoUpdate items time t)))"
    by (rule handleTodoUpdate_consistent)
  from Cons.IH [OF this] m show ?case by simp
qed

text \<open>An item is accumulated once as long as no single message repeats a text.\<close>

lemma handleTodoUpdate_distinct:
  assumes "set (knownTodoItems t) = set (map todo_text (accumulatedTodoItems t))"
    "distinct (map todo_text (accumulatedTodoItems t))"
    "case items of None \<Rightarrow> True | Some xs \<Rightarrow> distinct xs"
  shows "distinct (map todo_text (accumulatedTodoItems (handleTodoUpdate items time t)))"
  using assms by (auto simp: handleTodoUpdate_texts split: option.splits)

text \<open>
  Claim C10. After any sequence of to-do updates, the accumulated items should hold
  each distinct text at most once. The handler filters the items of a message against
  the known set before it adds any of them, so a text that one message carries twice is
  new both times and is accumulated twice.
\<close>

theorem handleTodoUpdate_repeats_item:
  "map todo_text (accumulatedTodoItems
      (handleTodoUpdate (Some [''Send the prospectus'', ''Send the prospectus'']) ''10:41'' init_todos))
     = [''Send the prospectus'', ''Send the prospectus''] \<and>
   knownTodoItems
      (handleTodoUpdate (Some [''Send the prospectus'', ''Send the prospectus'']) ''10:41'' init_todos)
     = [''Send the prospectus'']"
  by (simp add: handleTodoUpdate_def init_todos_def set_add_def)

section \<open>Properties of the accumulated profile\<close>

lemma fold_set_add_set: "set (fold set_add xs ys) = set ys \<union> set xs"
  by (induction xs arbitrary: ys) auto

lemma fold_set_add_distinct: "distinct (fold set_add xs ys) = distinct ys"
  by (induction xs arbitrary: ys) auto

lemma fold_set_add_subset: "set xs \<subseteq> set ys \<Longrightarrow> fold set_add xs ys = ys"
  by (induction xs arbitrary: ys) (auto simp: set_add_member)

lemma accumulate_profile:
  "accumulatedProfile (accumulate key xs p) =
     (accumulatedProfile p)(key := fold set_add xs (accumulatedProfile p key))"
  unfolding accumulate_def by (induction xs arbitrary: p) auto

lemma accumulate_others [simp]:
  "latestSentiment (accumulate key xs p) = latestSentiment p"
  "latestSentimentDetail (accumulate key xs p) = latestSentimentDetail p"
  "latestRiskProfile (accumulate key xs p) = latestRiskProfile p"
  "latestRiskDetail (accumulate key xs p) = latestRiskDetail p"
  "latestClientTier (accumulate key xs p) = latestClientTier p"
  "intelligenceBar_hidden (accumulate key xs p) = intelligenceBar_hidden p"
  unfolding accumulate_def by (induction xs arbitrary: p) auto

lemma accumulate_key_profile:
  "accumulatedProfile (accumulate_key data key p) =
     (accumulatedProfile p)(key := fold set_add (delivered data key) (accumulatedProfile p key))"
  by (auto simp: accumulate_key_def delivered_def accumulate_profile split: option.splits)

lemma fold_accumulate_key_set:
  "set (accumulatedProfile (fold (accumulate_key data) ks p) k) =
     set (accumulatedProfile p k) \<union> (if k \<in> set ks then set (delivered data k) else {})"
  by (induction ks arbitrary: p) (auto simp: accumulate_key_profile fold_set_add_set)

lemma fold_accumulate_key_distinct:
  "distinct (accumulatedProfile (fold (accumulate_key data) ks p) k) =
     distinct (accumulatedProfile p k)"
  by (induction ks arbitrary: p) (auto simp: accumulate_key_profile fold_set_add_distinct)

lemma fold_accumulate_key_others [simp]:
  "latestSentiment (fold (accumulate_key data) ks p) = latestSentiment p"
  "latestSentimentDetail (fold (accumulate_key data) ks p) = latestSentimentDetail p"
  "latestRiskProfile (fold (accumulate_key data) ks p) = latestRiskProfile p"
  "latestRiskDetail (fold (accumulate_key data) ks p) = latestRiskDetail p"
  "latestClientTier (fold (accumulate_key data) ks p) = latestClientTier p"
  "intelligenceBar_hidden (fold (accumulate_key data) ks p) = intelligenceBar_hidden p"
  by (induction ks arbitrary: p) (auto simp: accumulate_key_def split: option.splits)

lemma profileKeys_all: "k \<in> set profileKeys"
  by (cases k) (simp_all add: profileKeys_def)

lemma fold_accumulate_key_cong:
  "accumulatedProfile q = accumulatedProfile q' \<Longrightarrow>
   accumulatedProfile (fold (accumulate_key data) ks q) =
   accumulatedProfile (fold (accumulate_key data) ks q')"
  by (induction ks arbitrary: q q') (auto simp: accumulate_key_profile)

lemma handleIntelligenceUpdate_profile:
  "accumulatedProfile (handleIntelligenceUpdate data p) =
     (if \<not> hasProfile data \<and> \<not> hasIntel data then accumulatedProfile p
      else accumulatedProfile (fold (accumulate_key data) profileKeys p))"
  by (auto simp: handleIntelligenceUpdate_def Let_def intro!: fold_accumulate_key_cong)

lemma handleIntelligenceUpdate_set:
  "set (accumulatedProfile (handleIntelligenceUpdate data p) k) =
     set (accumulatedProfile p k) \<union>
     (if hasProfile data \<or> hasIntel data then set (delivered data k) else {})"
  by (auto simp: handleIntelligenceUpdate_profile fold_accumulate_key_set profileKeys_all)

lemma handleIntelligenceUpdate_distinct:
  "distinct (accumulatedProfile (handleIntelligenceUpdate data p) k) =
     distinct (accumulatedProfile p k)"
  by (simp add: handleIntelligenceUpdate_profile fold_accumulate_key_distinct)

lemma handleIntelligenceUpdates_set:
  "set (accumulatedProfile (handleIntelligenceUpdates msgs p) k) =
     set (accumulatedProfile p k) \<union>
     (\<Union>m \<in> set (filter (\<lambda>m. hasProfile m \<or> hasIntel m) msgs). set (delivered m k))"
  unfolding handleIntelligenceUpdates_def
  by (induction msgs arbitrary: p) (auto simp: handleIntelligenceUpdate_set)

lemma handleIntelligenceUpdates_distinct:
  "distinct (accumulatedProfile (handleIntelligenceUpdates msgs p) k) =
     distinct (accumulatedProfile p k)"
  unfolding handleIntelligenceUpdates_def
  by (induction msgs arbitrary: p) (auto simp: handleIntelligenceUpdate_distinct)


lemma accumulate_noop:
  "set xs \<subseteq> set (accumulatedProfile p key) \<Longrightarrow> accumulate key xs p = p"
  unfolding accumulate_def by (induction xs arbitrary: p) (auto simp: set_add_member)

lemma accumulate_key_noop:
  "set (delivered data key) \<subseteq> set (accumulatedProfile p key) \<Longrightarrow> accumulate_key data key p = p"
  by (auto simp: accumulate_key_def delivered_def accumulate_noop split: option.splits)

lemma fold_accumulate_key_noop:
  "\<forall>k \<in> set ks. set (delivered data k) \<subseteq> set (accumulatedProfile p k) \<Longrightarrow>
   fold (accumulate_key data) ks p = p"
  by (induction ks) (auto simp: accumulate_key_noop)

lemma handleIntelligenceUpdate_again:
  assumes "hasProfile data \<or> hasIntel data \<longrightarrow>
           (\<forall>k. set (delivered data k) \<subseteq> set (accumulatedProfile p k))"
  shows "accumulatedProfile (handleIntelligenceUpdate data p) = accumulatedProfile p"
  using assms by (auto simp: handleIntelligenceUpdate_profile fold_accumulate_key_noop)

lemma handleIntelligenceUpdates_again:
  assumes "m \<in> set msgs"
  shows "accumulatedProfile (handleIntelligenceUpdate m (handleIntelligenceUpdates msgs p)) =
         accumulatedProfile (handleIntelligenceUpdates msgs p)"
proof (rule handleIntelligenceUpdate_again, intro impI allI)
  fix k
  assume "hasProfile m \<or> hasIntel m"
  with assms show "set (delivered m k) \<subseteq> set (accumulatedProfile (handleIntelligenceUpdates msgs p) k)"
    by (auto simp: handleIntelligenceUpdates_set)
qed

text \<open>
  The claim C8 as stated fails: a message that delivers a referral opportunity but has
  no family, life event, interest or career item, no sentiment and no key concerns field
  is skipped as empty by the test at the head of the handler, and what it delivers is not
  accumulated.
\<close>

theorem accumulatedProfile_skips_ungated_counterexample:
  "accumulatedProfile (handleIntelligenceUpdates [referral_only] init_profile) referral_opportunities = [] \<and>
   delivered referral_only referral_opportunities = [''Introduce the estate attorney'']"
  by (simp add: handleIntelligenceUpdates_def handleIntelligenceUpdate_def referral_only_def
      init_profile_def hasProfile_def hasIntel_def delivered_def)

text \<open>
  Claim C8, amended. The accumulated profile is a family of sets keyed by category:
  after any sequence of intelligence updates it holds, for each category, exactly the
  union of the items delivered for that category by the messages that the handler does
  not skip as empty (those with a non-empty family, life events, interests or career
  list, a sentiment or a key concerns field); no item is held twice; and delivering
  again an update that was already delivered leaves the accumulated profile unchanged.
\<close>

theorem accumulatedProfile_union:
  "set (accumulatedProfile (handleIntelligenceUpdates msgs init_profile) key) =
     (\<Union>m \<in> set (filter (\<lambda>m. hasProfile m \<or> hasIntel m) msgs). set (delivered m key)) \<and>
   distinct (accumulatedProfile (handleIntelligenceUpdates msgs init_profile) key) \<and>
   (m \<in> set msgs \<longrightarrow>
      accumulatedProfile (handleIntelligenceUpdate m (handleIntelligenceUpdates msgs init_profile)) =
      accumulatedProfile (handleIntelligenceUpdates msgs init_profile))"
  by (simp add: handleIntelligenceUpdates_set handleIntelligenceUpdates_distinct
      handleIntelligenceUpdates_again) (simp add: init_profile_def)

lemma sample_profile:
  "accumulatedProfile (handleIntelligenceUpdates [family_update, referral_only] init_profile) =
     (\<lambda>key. [])(family := [''Daughter, 14'', ''Spouse: Ana''])"
  by (simp add: handleIntelligenceUpdates_def handleIntelligenceUpdate_def referral_only_def
      family_update_def init_profile_def hasProfile_def hasIntel_def Let_def profileKeys_def
      accumulate_key_def accumulate_def set_add_def)

theorem accumulatedProfile_union_witness:
  "family_update \<in> set [family_update, referral_only] \<and>
   filter (\<lambda>m. hasProfile m \<or> hasIntel m) [family_update, referral_only] = [family_update] \<and>
   accumulatedProfile (handleIntelligenceUpdates [family_update, referral_only] init_profile) family =
     [''Daughter, 14'', ''Spouse: Ana''] \<and>
   accumulatedProfile (handleIntelligenceUpdate family_update
      (handleIntelligenceUpdates [family_update, referral_only] init_profile)) family =
     [''Daughter, 14'', ''Spouse: Ana'']"
  using accumulatedProfile_union [of "[family_update, referral_only]" family family_update]
  by (simp add: sample_profile)
     (simp add: hasProfile_def hasIntel_def family_update_def referral_only_def)

section \<open>Properties of the tracker display\<close>

lemma handleDiscussionTrackerUpdate_items:
  "trackerItems (handleDiscussionTrackerUpdate data t) =
     (case update_points data of
        None \<Rightarrow> trackerItems t
      | Some ps \<Rightarrow> if length ps > 0 then map render_point ps else trackerItems t)"
  by (simp add: handleDiscussionTrackerUpdate_def renderDiscussionTracker_def Let_def
      split: option.splits)

lemma handleDiscussionTrackerUpdates_snoc:
  "handleDiscussionTrackerUpdates (msgs @ [m]) t =
     handleDiscussionTrackerUpdate m (handleDiscussionTrackerUpdates msgs t)"
  by (simp add: handleDiscussionTrackerUpdates_def)

lemma handleDiscussionTrackerUpdates_append:
  "handleDiscussionTrackerUpdates (msgs @ later) t =
     handleDiscussionTrackerUpdates later (handleDiscussionTrackerUpdates msgs t)"
  by (simp add: handleDiscussionTrackerUpdates_def)

lemma latest_points_snoc:
  "latest_points (msgs @ [m]) = (if has_points m then update_points m else latest_points msgs)"
  by (simp add: latest_points_def)

lemma handleDiscussionTrackerUpdates_items:
  "trackerItems (handleDiscussionTrackerUpdates msgs t) =
     (case latest_points msgs of None \<Rightarrow> trackerItems t | Some ps \<Rightarrow> map render_point ps)"
proof (induction msgs rule: rev_induct)
  case Nil
  show ?case by (simp add: handleDiscussionTrackerUpdates_def latest_points_def)
next
  case (snoc m msgs)
  then show ?case
    by (auto simp: handleDiscussionTrackerUpdates_snoc latest_points_snoc
        handleDiscussionTrackerUpdate_items has_points_def split: option.splits)
qed

lemma displayed_render:
  "trackerItems t = map render_point ps \<Longrightarrow>
   displayed t txt = map (\<lambda>p. ''tracker-'' @ point_status p) (filter (\<lambda>p. point_text p = txt) ps)"
  by (simp add: displayed_def render_point_def filter_map comp_def)

lemma handleDiscussionTrackerUpdate_keeps:
  assumes "list_all (\<lambda>c. c = ''tracker-discussed'') (displayed t txt)" "keeps_discussed txt m"
  shows "list_all (\<lambda>c. c = ''tracker-discussed'') (displayed (handleDiscussionTrackerUpdate m t) txt)"
proof (cases "has_points m")
  case False
  then have "trackerItems (handleDiscussionTrackerUpdate m t) = trackerItems t"
    by (auto simp: handleDiscussionTrackerUpdate_items has_points_def split: option.splits)
  with assms(1) show ?thesis by (simp add: displayed_def)
next
  case True
  then obtain ps where ps: "update_points m = Some ps" "length ps > 0"
    by (auto simp: has_points_def split: option.splits)
  then have "trackerItems (handleDiscussionTrackerUpdate m t) = map render_point ps"
    by (simp add: handleDiscussionTrackerUpdate_items)
  from displayed_render [OF this] assms(2) ps show ?thesis
    by (auto simp: keeps_discussed_def list_all_iff)
qed

lemma handleDiscussionTrackerUpdates_keep:
  assumes "list_all (\<lambda>c. c = ''tracker-discussed'') (displayed t txt)"
    "list_all (keeps_discussed txt) later"
  shows "list_all (\<lambda>c. c = ''tracker-discussed'')
           (displayed (handleDiscussionTrackerUpdates later t) txt)"
  using assms unfolding handleDiscussionTrackerUpdates_def
  by (induction later arbitrary: t) (simp_all add: handleDiscussionTrackerUpdate_keeps)

text \<open>
  The claim C4 as stated fails on the client: it renders the points of an update as
  they come, so a point shown as discussed is shown as pending again when a later update
  carries that status.
\<close>

theorem tracker_shows_backward_status_counterexample:
  "displayed (handleDiscussionTrackerUpdates [discussed_update] init_tracker) ''Roth conversion'' =
     [''tracker-discussed''] \<and>
   displayed (handleDiscussionTrackerUpdates [discussed_update, backward_update] init_tracker)
     ''Roth conversion'' = [''tracker-pending'']"
  by (simp add: handleDiscussionTrackerUpdates_def handleDiscussionTrackerUpdate_def
      renderDiscussionTracker_def discussed_update_def backward_update_def init_tracker_def
      displayed_def render_point_def)

text \<open>
  Claim C4, amended. After any sequence of tracker updates the panel shows the points
  of the most recent update that has any, each with the status that update carries; the
  client applies no forward-only clamp of its own. Hence a point shown as discussed
  stays shown as discussed as long as every later update that carries the point carries
  it as discussed.
\<close>

theorem tracker_shows_latest_update:
  "trackerItems (handleDiscussionTrackerUpdates msgs t) =
     (case latest_points msgs of None \<Rightarrow> trackerItems t | Some ps \<Rightarrow> map render_point ps) \<and>
   (list_all (\<lambda>c. c = ''tracker-discussed'') (displayed (handleDiscussionTrackerUpdates msgs t) txt) \<and>
    list_all (keeps_discussed txt) later \<longrightarrow>
      list_all (\<lambda>c. c = ''tracker-discussed'')
        (displayed (handleDiscussionTrackerUpdates (msgs @ later) t) txt))"
  by (simp add: handleDiscussionTrackerUpdates_items handleDiscussionTrackerUpdates_append
      handleDiscussionTrackerUpdates_keep)

theorem tracker_shows_latest_update_witness:
  "displayed (handleDiscussionTrackerUpdates [backward_update, discussed_update] init_tracker)
     ''Roth conversion'' = [''tracker-discussed''] \<and>
   list_all (keeps_discussed ''Roth conversion'') [discussed_update] \<and>
   displayed (handleDiscussionTrackerUpdates ([backward_update, discussed_update] @ [discussed_update])
     init_tracker) ''Roth conversion'' = [''tracker-discussed''] \<and>
   latest_points [backward_update, discussed_update] = update_points discussed_update"
  using tracker_shows_latest_update [of "[backward_update, discussed_update]" init_tracker
      "''Roth conversion''" "[discussed_update]"]
  by (simp add: handleDiscussionTrackerUpdates_def handleDiscussionTrackerUpdate_def
      renderDiscussionTracker_def discussed_update_def backward_update_def init_tracker_def
      displayed_def render_point_def keeps_discussed_def latest_points_def has_points_def)

section \<open>Properties of the transcript rendering\<close>

lemma lines_of_append [simp]: "lines_of (xs @ ys) = lines_of xs @ lines_of ys"
  by (induction xs rule: lines_of.induct) simp_all

lemma lines_of_remove1_placeholder:
  "lines_of (remove1 EmptyState ns) = lines_of ns" "lines_of (remove1 EmptyStateSm ns) = lines_of ns"
  by (induction ns rule: lines_of.induct) simp_all

lemma lines_of_removeEmptyState [simp]: "lines_of (removeEmptyState ns) = lines_of ns"
  by (simp add: removeEmptyState_def lines_of_remove1_placeholder)

lemma lines_of_remove_element [simp]:
  "lines_of (remove_element e ns) = filter (\<lambda>l. element l \<noteq> e) (lines_of ns)"
  unfolding remove_element_def by (induction ns rule: lines_of.induct) simp_all

lemma lines_of_set_content [simp]:
  "lines_of (map (set_content e txt) ns) = map (line_content e txt) (lines_of ns)"
  by (induction ns rule: lines_of.induct) simp_all

lemma line_content_fields [simp]:
  "element (line_content e txt l) = element l" "kind (line_content e txt l) = kind l"
  "label (line_content e txt l) = label l" "timestamp (line_content e txt l) = timestamp l"
  "speakerClass (line_content e txt l) = speakerClass l"
  "content (line_content e txt l) = (if element l = e then txt else content l)"
  by (simp_all add: line_content_def)

lemma get_property_cases:
  "get_property obj key = Own v \<longleftrightarrow> obj key = Some v"
  "get_property obj key = Undefined \<longleftrightarrow> obj key = None \<and> key \<notin> set object_prototype_keys"
  "get_property obj key = Inherited \<longleftrightarrow> obj key = None \<and> key \<in> set object_prototype_keys"
  by (auto simp: get_property_def split: option.splits)

lemma plain_speaker_lookup:
  "plain_speaker s \<Longrightarrow> get_property obj s = (case obj s of None \<Rightarrow> Undefined | Some e \<Rightarrow> Own e)"
  by (simp add: get_property_def plain_speaker_def split: option.splits)

subsection \<open>What one message does\<close>

lemma handleTranscript_raises:
  assumes "get_property (interimElements t) (speaker data) = Inherited"
  shows "fst (handleTranscript data time t) = Some TypeError"
    "lines_of (transcriptContainer (snd (handleTranscript data time t))) = lines_of (transcriptContainer t)"
    "interimElements (snd (handleTranscript data time t)) = interimElements t"
    "nextElement (snd (handleTranscript data time t)) = nextElement t"
  using assms by (simp_all add: handleTranscript_def Let_def)

lemma handleTranscript_final:
  assumes "is_final data" "get_property (interimElements t) (speaker data) \<noteq> Inherited"
  shows "fst (handleTranscript data time t) = None"
    "lines_of (transcriptContainer (snd (handleTranscript data time t))) =
       (case interimElements t (speaker data) of
          None \<Rightarrow> lines_of (transcriptContainer t)
        | Some e \<Rightarrow> filter (\<lambda>l. element l \<noteq> e) (lines_of (transcriptContainer t))) @
       [final_line data time (nextElement t)]"
    "interimElements (snd (handleTranscript data time t)) = (interimElements t)(speaker data := None)"
    "nextElement (snd (handleTranscript data time t)) = nextElement t + 1"
proof -
  consider "get_property (interimElements t) (speaker data) = Undefined"
      "interimElements t (speaker data) = None"
    | e where "get_property (interimElements t) (speaker data) = Own e"
      "interimElements t (speaker data) = Some e"
    using assms(2) by (cases "get_property (interimElements t) (speaker data)")
      (auto simp: get_property_cases)
  then have "fst (handleTranscript data time t) = None \<and>
    lines_of (transcriptContainer (snd (handleTranscript data time t))) =
       (case interimElements t (speaker data) of
          None \<Rightarrow> lines_of (transcriptContainer t)
        | Some e \<Rightarrow> filter (\<lambda>l. element l \<noteq> e) (lines_of (transcriptContainer t))) @
       [final_line data time (nextElement t)] \<and>
    interimElements (snd (handleTranscript data time t)) = (interimElements t)(speaker data := None) \<and>
    nextElement (snd (handleTranscript data time t)) = nextElement t + 1"
  proof cases
    case 1
    from 1(2) have "(interimElements t)(speaker data := None) = interimElements t"
      by (intro ext) simp
    with 1 assms(1) show ?thesis
      by (simp add: handleTranscript_def Let_def final_line_def)
  next
    case 2
    with assms(1) show ?thesis
      by (simp add: handleTranscript_def Let_def final_line_def)
  qed
  then show "fst (handleTranscript data time t) = None"
    "lines_of (transcriptContainer (snd (handleTranscript data time t))) =
       (case interimElements t (speaker data) of
          None \<Rightarrow> lines_of (transcriptContainer t)
        | Some e \<Rightarrow> filter (\<lambda>l. element l \<noteq> e) (lines_of (transcriptContainer t))) @
       [final_line data time (nextElement t)]"
    "interimElements (snd (handleTranscript data time t)) = (interimElements t)(speaker data := None)"
    "nextElement (snd (handleTranscript data time t)) = nextElement t + 1"
    by simp_all
qed

lemma handleTranscript_partial_existing:
  assumes "\<not> is_final data" "interimElements t (speaker data) = Some e"
  shows "fst (handleTranscript data time t) = None"
    "lines_of (transcriptContainer (snd (handleTranscript data time t))) =
       map (line_content e (msg_text data)) (lines_of (transcriptContainer t))"
    "interimElements (snd (handleTranscript data time t)) = interimElements t"
    "nextElement (snd (handleTranscript data time t)) = nextElement t"
  using assms by (simp_all add: handleTranscript_def Let_def get_property_def)

lemma handleTranscript_partial_new:
  assumes "\<not> is_final data" "get_property (interimElements t) (speaker data) = Undefined"
    "\<forall>l \<in> set (lines_of (transcriptContainer t)). element l < nextElement t"
  shows "fst (handleTranscript data time t) = None"
    "lines_of (transcriptContainer (snd (handleTranscript data time t))) =
       lines_of (transcriptContainer t) @ [interim_line data time (nextElement t)]"
    "interimElements (snd (handleTranscript data time t)) =
       (interimElements t)(speaker data \<mapsto> nextElement t)"
    "nextElement (snd (handleTranscript data time t)) = nextElement t + 1"
proof -
  have "map (line_content (nextElement t) (msg_text data)) (lines_of (transcriptContainer t)) =
        lines_of (transcriptContainer t)"
    using assms(3) by (intro map_idI) (auto simp: line_content_def)
  with assms(1,2) show "lines_of (transcriptContainer (snd (handleTranscript data time t))) =
       lines_of (transcriptContainer t) @ [interim_line data time (nextElement t)]"
    by (simp add: handleTranscript_def Let_def interim_line_def line_content_def)
qed (use assms(1,2) in \<open>simp_all add: handleTranscript_def Let_def\<close>)


subsection \<open>The invariant\<close>

lemma lines_ok_final:
  assumes "lines_ok ls interim n"
  shows "lines_ok ((case interim s of None \<Rightarrow> ls | Some e \<Rightarrow> filter (\<lambda>l. element l \<noteq> e) ls) @
                   [final_line data time n]) (interim(s := None)) (n + 1)"
proof -
  from assms have d: "distinct (map element ls)"
    and b: "\<And>l. l \<in> set ls \<Longrightarrow> element l < n"
    and i: "\<And>l. l \<in> set ls \<Longrightarrow> kind l = Interim \<Longrightarrow> interim (label l) = Some (element l)"
    and r: "\<And>s e. interim s = Some e \<Longrightarrow> \<exists>l \<in> set ls. element l = e \<and> kind l = Interim \<and> label l = s"
    by (auto simp: lines_ok_def)
  let ?ls = "case interim s of None \<Rightarrow> ls | Some e \<Rightarrow> filter (\<lambda>l. element l \<noteq> e) ls"
  have sub: "set ?ls \<subseteq> set ls" by (auto split: option.splits)
  have dist: "distinct (map element ?ls)" using d by (auto split: option.splits simp: distinct_map_filter)
  have fresh: "n \<notin> element ` set ?ls" using b sub by fastforce
  have kept: "\<And>l. l \<in> set ls \<Longrightarrow> label l \<noteq> s \<Longrightarrow> kind l = Interim \<Longrightarrow> l \<in> set ?ls"
  proof -
    fix l assume l: "l \<in> set ls" "label l \<noteq> s" "kind l = Interim"
    show "l \<in> set ?ls"
    proof (cases "interim s")
      case None
      with l show ?thesis by simp
    next
      case (Some e)
      from r [OF Some] obtain l' where l': "l' \<in> set ls" "element l' = e" "label l' = s" by blast
      have "element l \<noteq> e"
      proof
        assume "element l = e"
        with l' l(1) d have "l = l'" by (metis distinct_map inj_onD)
        with l' l(2) show False by simp
      qed
      with Some l show ?thesis by simp
    qed
  qed
  have interim_kept: "\<And>l. l \<in> set ?ls \<Longrightarrow> kind l = Interim \<Longrightarrow> label l \<noteq> s"
  proof
    fix l assume l: "l \<in> set ?ls" "kind l = Interim" "label l = s"
    then have "l \<in> set ls" using sub by blast
    from i [OF this l(2)] l(3) have "interim s = Some (element l)" by simp
    with l(1) show False by simp
  qed
  show ?thesis
    unfolding lines_ok_def
  proof (intro conjI ballI allI impI)
    show "distinct (map element (?ls @ [final_line data time n]))"
      using dist fresh by (simp add: final_line_def)
  next
    fix l assume "l \<in> set (?ls @ [final_line data time n])"
    then show "element l < n + 1" using b sub by (auto simp: final_line_def less_Suc_eq)
  next
    fix l assume "l \<in> set (?ls @ [final_line data time n])" "kind l = Interim"
    then have l: "l \<in> set ?ls" "kind l = Interim" by (auto simp: final_line_def)
    with interim_kept i sub show "(interim(s := None)) (label l) = Some (element l)" by auto
  next
    fix s' e assume "(interim(s := None)) s' = Some e"
    then have s': "s' \<noteq> s" "interim s' = Some e" by (auto split: if_splits)
    from r [OF s'(2)] obtain l where "l \<in> set ls" "element l = e" "kind l = Interim" "label l = s'"
      by blast
    with kept [of l] s'(1)
    show "\<exists>l \<in> set (?ls @ [final_line data time n]). element l = e \<and> kind l = Interim \<and> label l = s'"
      by auto
  qed
qed

lemma lines_ok_content:
  assumes "lines_ok ls interim n"
  shows "lines_ok (map (line_content e txt) ls) interim n"
proof -
  have el: "element \<circ> line_content e txt = element" by (intro ext) simp
  from assms have r: "\<And>s e'. interim s = Some e' \<Longrightarrow>
      \<exists>l \<in> set ls. element l = e' \<and> kind l = Interim \<and> label l = s"
    by (auto simp: lines_ok_def)
  show ?thesis
    unfolding lines_ok_def
  proof (intro conjI ballI allI impI)
    show "distinct (map element (map (line_content e txt) ls))"
      using assms by (simp add: el lines_ok_def)
  next
    fix l assume "l \<in> set (map (line_content e txt) ls)"
    then obtain l0 where "l0 \<in> set ls" "l = line_content e txt l0" by auto
    with assms show "element l < n" by (auto simp: lines_ok_def)
  next
    fix l assume "l \<in> set (map (line_content e txt) ls)" "kind l = Interim"
    then obtain l0 where "l0 \<in> set ls" "l = line_content e txt l0" "kind l0 = Interim" by auto
    with assms show "interim (label l) = Some (element l)" by (auto simp: lines_ok_def)
  next
    fix s e' assume "interim s = Some e'"
    from r [OF this] obtain l where l: "l \<in> set ls" "element l = e'" "kind l = Interim" "label l = s"
      by blast
    then have "line_content e txt l \<in> set (map (line_content e txt) ls)" by simp
    with l show "\<exists>l \<in> set (map (line_content e txt) ls). element l = e' \<and> kind l = Interim \<and> label l = s"
      by (intro bexI [of _ "line_content e txt l"]) simp_all
  qed
qed

lemma lines_ok_interim:
  assumes "lines_ok ls interim n" "interim (speaker data) = None"
  shows "lines_ok (ls @ [interim_line data time n]) (interim(speaker data \<mapsto> n)) (n + 1)"
  using assms unfolding lines_ok_def
  by (auto simp: interim_line_def less_Suc_eq)

lemma handleTranscript_ok:
  assumes "transcript_ok t"
  shows "transcript_ok (snd (handleTranscript data time t))"
proof (cases "get_property (interimElements t) (speaker data)")
  case Inherited
  from handleTranscript_raises(2-4) [OF this, of time] assms show ?thesis
    by (simp add: transcript_ok_def)
next
  case Undefined
  then have none: "interimElements t (speaker data) = None" by (simp add: get_property_cases)
  show ?thesis
  proof (cases "is_final data")
    case True
    from handleTranscript_final(2-4) [OF True, of t time] Undefined
      lines_ok_final [OF assms [unfolded transcript_ok_def], of "speaker data" data time]
    show ?thesis by (simp add: transcript_ok_def)
  next
    case False
    from assms have "\<forall>l \<in> set (lines_of (transcriptContainer t)). element l < nextElement t"
      by (simp add: transcript_ok_def lines_ok_def)
    from handleTranscript_partial_new(2-4) [OF False Undefined this, of time]
      lines_ok_interim [OF assms [unfolded transcript_ok_def] none, of time]
    show ?thesis by (simp add: transcript_ok_def)
  qed
next
  case (Own e)
  then have some: "interimElements t (speaker data) = Some e" by (simp add: get_property_cases)
  show ?thesis
  proof (cases "is_final data")
    case True
    from handleTranscript_final(2-4) [OF True, of t time] Own
      lines_ok_final [OF assms [unfolded transcript_ok_def], of "speaker data" data time]
    show ?thesis by (simp add: transcript_ok_def)
  next
    case False
    from handleTranscript_partial_existing(2-4) [OF False some, of time]
      lines_ok_content [OF assms [unfolded transcript_ok_def], of e "msg_text data"]
    show ?thesis by (simp add: transcript_ok_def)
  qed
qed

lemma handleTranscripts_ok: "transcript_ok t \<Longrightarrow> transcript_ok (handleTranscripts msgs t)"
  unfolding handleTranscripts_def
  by (induction msgs arbitrary: t) (auto simp: handleTranscript_ok)

lemma init_transcript_ok: "transcript_ok init_transcript"
  by (simp add: transcript_ok_def lines_ok_def init_transcript_def)

subsection \<open>Final lines\<close>

lemma finals_filter_interim:
  assumes "lines_ok ls interim n" "interim s = Some e"
  shows "filter (\<lambda>l. kind l = Final) (filter (\<lambda>l. element l \<noteq> e) ls) = filter (\<lambda>l. kind l = Final) ls"
proof -
  from assms obtain l' where l': "l' \<in> set ls" "element l' = e" "kind l' = Interim"
    unfolding lines_ok_def by blast
  from assms(1) have d: "distinct (map element ls)" by (simp add: lines_ok_def)
  have "\<And>l. l \<in> set ls \<Longrightarrow> kind l = Final \<Longrightarrow> element l \<noteq> e"
  proof
    fix l assume l: "l \<in> set ls" "kind l = Final" "element l = e"
    with l' d have "l = l'" by (metis distinct_map inj_onD)
    with l l' show False by simp
  qed
  then show ?thesis by (auto intro!: filter_cong)
qed

lemma finals_content_interim:
  assumes "lines_ok ls interim n" "interim s = Some e"
  shows "finals (map (line_content e txt) ls) = finals ls"
proof -
  from assms obtain l' where l': "l' \<in> set ls" "element l' = e" "kind l' = Interim"
    unfolding lines_ok_def by blast
  from assms(1) have d: "distinct (map element ls)" by (simp add: lines_ok_def)
  have keep: "\<And>l. l \<in> set ls \<Longrightarrow> kind l = Final \<Longrightarrow> line_content e txt l = l"
  proof -
    fix l assume l: "l \<in> set ls" "kind l = Final"
    have "element l \<noteq> e"
    proof
      assume "element l = e"
      with l l' d have "l = l'" by (metis distinct_map inj_onD)
      with l l' show False by simp
    qed
    then show "line_content e txt l = l" by (simp add: line_content_def)
  qed
  have "filter (\<lambda>l. kind l = Final) (map (line_content e txt) ls) =
        map (line_content e txt) (filter (\<lambda>l. kind l = Final) ls)"
    by (simp add: filter_map comp_def)
  also have "\<dots> = filter (\<lambda>l. kind l = Final) ls"
    using keep by (intro map_idI) simp
  finally show ?thesis by (simp add: finals_def)
qed

lemma final_lines_finals: "final_lines t = finals (lines_of (transcriptContainer t))"
  by (simp add: final_lines_def)

lemma handleTranscript_final_lines:
  assumes "transcript_ok t" "plain_speaker (speaker data)"
  shows "final_lines (snd (handleTranscript data time t)) =
           final_lines t @ (if is_final data then [(speaker data, msg_text data, time)] else [])"
proof -
  note ok = assms(1) [unfolded transcript_ok_def]
  from assms(2) have plain: "get_property (interimElements t) (speaker data) \<noteq> Inherited"
    by (simp add: get_property_cases plain_speaker_def)
  show ?thesis
  proof (cases "is_final data")
    case True
    show ?thesis
    proof (cases "interimElements t (speaker data)")
      case None
      with handleTranscript_final(2) [OF True plain, of time] True show ?thesis
        by (simp add: final_lines_finals finals_def final_line_def)
    next
      case (Some e)
      with handleTranscript_final(2) [OF True plain, of time] True finals_filter_interim [OF ok Some]
      show ?thesis
        by (simp add: final_lines_finals finals_def final_line_def)
    qed
  next
    case False
    show ?thesis
    proof (cases "interimElements t (speaker data)")
      case None
      with assms(2) have u: "get_property (interimElements t) (speaker data) = Undefined"
        by (simp add: get_property_cases plain_speaker_def)
      from ok have "\<forall>l \<in> set (lines_of (transcriptContainer t)). element l < nextElement t"
        by (simp add: lines_ok_def)
      from handleTranscript_partial_new(2) [OF False u this, of time] False show ?thesis
        by (simp add: final_lines_finals finals_def interim_line_def)
    next
      case (Some e)
      from handleTranscript_partial_existing(2) [OF False Some, of time] False
        finals_content_interim [OF ok Some]
      show ?thesis by (simp add: final_lines_finals)
    qed
  qed
qed

lemma handleTranscripts_final_lines:
  assumes "transcript_ok t" "list_all (\<lambda>(data, time). plain_speaker (speaker data)) msgs"
  shows "final_lines (handleTranscripts msgs t) =
           final_lines t @
           map (\<lambda>(data, time). (speaker data, msg_text data, time))
             (filter (\<lambda>(data, time). is_final data) msgs)"
  using assms
proof (induction msgs arbitrary: t)
  case Nil
  show ?case by (simp add: handleTranscripts_def)
next
  case (Cons m msgs)
  obtain data time where m: "m = (data, time)" by (cases m)
  with Cons.prems have plain: "plain_speaker (speaker data)"
    and rest: "list_all (\<lambda>(data, time). plain_speaker (speaker data)) msgs" by simp_all
  let ?t = "snd (handleTranscript data time t)"
  have step: "handleTranscripts ((data, time) # msgs) t = handleTranscripts msgs ?t"
    by (simp add: handleTranscripts_def)
  from Cons.IH [OF handleTranscript_ok [OF Cons.prems(1)] rest, of data time]
    handleTranscript_final_lines [OF Cons.prems(1) plain, of time]
  show ?case by (simp add: step m)
qed

subsection \<open>Commit order\<close>

text \<open>
  Claim C2. For every sequence of transcript messages, final and partial in any order,
  the final lines of the transcript container are, in order, the final lines that were
  there before followed by one line for each final message in the order of arrival,
  each with the speaker label, the text and the time of its message: no final line is
  lost, duplicated or moved by a later message. The speaker labels range over all
  strings that do not name a member of \<^verbatim>\<open>Object.prototype\<close>, among them the labels
  \<^verbatim>\<open>Advisor\<close> and \<^verbatim>\<open>Client\<close> that the server uses.
\<close>

theorem final_lines_in_commit_order:
  "transcript_ok t \<and> list_all (\<lambda>(data, time). plain_speaker (speaker data)) msgs \<longrightarrow>
     final_lines (handleTranscripts msgs t) =
       final_lines t @
       map (\<lambda>(data, time). (speaker data, msg_text data, time))
         (filter (\<lambda>(data, time). is_final data) msgs)"
  using handleTranscripts_final_lines by blast

lemma sample_transcript_run:
  "transcriptContainer (handleTranscripts sample_transcript init_transcript) =
     [Line \<lparr>element = 1, kind = Final, speakerClass = ''speaker-advisor'',
            timestamp = ''10:00:02'', label = ''Advisor'', content = ''Tell me more.''\<rparr>,
      Line \<lparr>element = 2, kind = Final, speakerClass = ''speaker-client'',
            timestamp = ''10:00:04'', label = ''Client'',
            content = ''We want to save for college.''\<rparr>]"
  by (simp add: handleTranscripts_def handleTranscript_def sample_transcript_def
      init_transcript_def removeEmptyState_def get_property_def object_prototype_keys_def
      remove_element_def line_content_def Let_def)

lemma sample_transcript_plain:
  "list_all (\<lambda>(data, time). plain_speaker (speaker data)) sample_transcript"
  by (simp add: sample_transcript_def plain_speaker_def object_prototype_keys_def)

theorem final_lines_in_commit_order_witness:
  "transcript_ok init_transcript \<and>
   list_all (\<lambda>(data, time). plain_speaker (speaker data)) sample_transcript \<and>
   final_lines (handleTranscripts sample_transcript init_transcript) =
     [(''Advisor'', ''Tell me more.'', ''10:00:02''),
      (''Client'', ''We want to save for college.'', ''10:00:04'')]"
  using final_lines_in_commit_order [of init_transcript sample_transcript]
    init_transcript_ok sample_transcript_plain
  by (simp add: final_lines_def finals_def sample_transcript_run)

text \<open>
  Outside that range of labels the handler raises before it appends anything: a final
  message whose speaker is called \<^verbatim>\<open>constructor\<close> leaves no line.
\<close>

lemma handleTranscript_inherited_speaker:
  "fst (handleTranscript \<lparr>msg_text = ''Hello'', is_final = True, speaker = ''constructor''\<rparr>
          ''10:00:05'' init_transcript) = Some TypeError \<and>
   final_lines (snd (handleTranscript
          \<lparr>msg_text = ''Hello'', is_final = True, speaker = ''constructor''\<rparr>
          ''10:00:05'' init_transcript)) = []"
  by (simp add: handleTranscript_def init_transcript_def get_property_def
      object_prototype_keys_def removeEmptyState_def final_lines_def finals_def Let_def)

subsection \<open>Interim lines\<close>

lemma distinct_same_key:
  "distinct (map f xs) \<Longrightarrow> \<forall>x \<in> set xs. P x \<longrightarrow> f x = c \<Longrightarrow> length (filter P xs) \<le> 1"
proof (induction xs)
  case Nil
  show ?case by simp
next
  case (Cons x xs)
  show ?case
  proof (cases "P x")
    case False
    with Cons show ?thesis by simp
  next
    case True
    with Cons.prems have c: "f x = c" and fresh: "f x \<notin> f ` set xs" by auto
    have "\<forall>y \<in> set xs. \<not> P y"
    proof (intro ballI notI)
      fix y assume y: "y \<in> set xs" "P y"
      with Cons.prems(2) have "f y = c" by simp
      with c have "f x = f y" by simp
      with y(1) fresh show False by (metis imageI)
    qed
    then have "filter P xs = []" by (simp add: filter_empty_conv)
    with True show ?thesis by simp
  qed
qed

lemma lines_ok_interim_recorded:
  "lines_ok ls interim n \<Longrightarrow> l \<in> set ls \<Longrightarrow> kind l = Interim \<Longrightarrow>
   interim (label l) = Some (element l)"
  by (simp add: lines_ok_def)

lemma lines_ok_recorded_interim:
  assumes "lines_ok ls interim n" "l \<in> set ls" "interim s = Some (element l)"
  shows "kind l = Interim \<and> label l = s"
proof -
  from assms obtain l' where l': "l' \<in> set ls" "element l' = element l" "kind l' = Interim" "label l' = s"
    unfolding lines_ok_def by blast
  from assms have "distinct (map element ls)" by (simp add: lines_ok_def)
  with assms(2) l' have "l' = l" by (metis distinct_map inj_onD)
  with l' show ?thesis by simp
qed

lemma lines_ok_at_most_one:
  assumes "lines_ok ls interim n"
  shows "length (filter (\<lambda>l. kind l = Interim \<and> label l = s) ls) \<le> 1"
proof -
  from assms have d: "distinct (map element ls)" by (simp add: lines_ok_def)
  show ?thesis
  proof (cases "interim s")
    case None
    have "\<forall>l \<in> set ls. \<not> (kind l = Interim \<and> label l = s)"
    proof (intro ballI notI)
      fix l assume "l \<in> set ls" "kind l = Interim \<and> label l = s"
      with lines_ok_interim_recorded [OF assms, of l] None show False by simp
    qed
    then have "filter (\<lambda>l. kind l = Interim \<and> label l = s) ls = []"
      by (simp add: filter_empty_conv)
    then show ?thesis by simp
  next
    case (Some e)
    have "\<forall>l \<in> set ls. kind l = Interim \<and> label l = s \<longrightarrow> element l = e"
    proof (intro ballI impI)
      fix l assume "l \<in> set ls" "kind l = Interim \<and> label l = s"
      with lines_ok_interim_recorded [OF assms, of l] Some show "element l = e" by simp
    qed
    with d show ?thesis by (rule distinct_same_key)
  qed
qed

lemma lines_ok_filter_interim:
  assumes "lines_ok ls interim n"
  shows "(case interim s of None \<Rightarrow> ls | Some e \<Rightarrow> filter (\<lambda>l. element l \<noteq> e) ls) =
         filter (\<lambda>l. \<not> (kind l = Interim \<and> label l = s)) ls"
proof (cases "interim s")
  case None
  have "\<forall>l \<in> set ls. \<not> (kind l = Interim \<and> label l = s)"
  proof (intro ballI notI)
    fix l assume "l \<in> set ls" "kind l = Interim \<and> label l = s"
    with lines_ok_interim_recorded [OF assms, of l] None show False by simp
  qed
  then have "filter (\<lambda>l. \<not> (kind l = Interim \<and> label l = s)) ls = ls"
    by (simp add: filter_id_conv)
  with None show ?thesis by simp
next
  case (Some e)
  have "\<And>l. l \<in> set ls \<Longrightarrow> (element l \<noteq> e) = (\<not> (kind l = Interim \<and> label l = s))"
  proof -
    fix l assume l: "l \<in> set ls"
    show "(element l \<noteq> e) = (\<not> (kind l = Interim \<and> label l = s))"
    proof (cases "element l = e")
      case True
      with Some lines_ok_recorded_interim [OF assms l, of s] show ?thesis by simp
    next
      case False
      with Some lines_ok_interim_recorded [OF assms l] show ?thesis by auto
    qed
  qed
  then have "filter (\<lambda>l. element l \<noteq> e) ls = filter (\<lambda>l. \<not> (kind l = Interim \<and> label l = s)) ls"
    by (intro filter_cong) simp_all
  with Some show ?thesis by simp
qed

lemma interim_lines_after_final:
  assumes "transcript_ok t" "is_final data" "plain_speaker (speaker data)"
  shows "lines_of (transcriptContainer (snd (handleTranscript data time t))) =
           filter (\<lambda>l. \<not> (kind l = Interim \<and> label l = speaker data))
             (lines_of (transcriptContainer t)) @ [final_line data time (nextElement t)]"
    "interim_lines (snd (handleTranscript data time t)) (speaker data) = []"
    "interimElements (snd (handleTranscript data time t)) (speaker data) = None"
proof -
  from assms(3) have plain: "get_property (interimElements t) (speaker data) \<noteq> Inherited"
    by (simp add: get_property_cases plain_speaker_def)
  note f = handleTranscript_final [OF assms(2) plain, of time]
  from f(2) lines_ok_filter_interim [OF assms(1) [unfolded transcript_ok_def], of "speaker data"]
  show eq: "lines_of (transcriptContainer (snd (handleTranscript data time t))) =
           filter (\<lambda>l. \<not> (kind l = Interim \<and> label l = speaker data))
             (lines_of (transcriptContainer t)) @ [final_line data time (nextElement t)]"
    by simp
  show "interim_lines (snd (handleTranscript data time t)) (speaker data) = []"
    by (auto simp: interim_lines_def eq final_line_def filter_empty_conv)
  show "interimElements (snd (handleTranscript data time t)) (speaker data) = None"
    by (simp add: f(3))
qed

lemma interim_lines_after_partial:
  assumes "transcript_ok t" "\<not> is_final data" "interimElements t (speaker data) = Some e"
  shows "map content (interim_lines (snd (handleTranscript data time t)) (speaker data)) =
           [msg_text data]"
proof -
  note ok = assms(1) [unfolded transcript_ok_def]
  let ?ls = "lines_of (transcriptContainer t)"
  let ?P = "\<lambda>l. kind l = Interim \<and> label l = speaker data"
  from ok assms(3) obtain l where l: "l \<in> set ?ls" "element l = e" "?P l"
    unfolding lines_ok_def by blast
  then have "filter ?P ?ls \<noteq> []" by (auto simp: filter_empty_conv)
  moreover have "length (filter ?P ?ls) \<le> 1" using ok by (rule lines_ok_at_most_one)
  ultimately obtain l' where one: "filter ?P ?ls = [l']"
    by (cases "filter ?P ?ls") auto
  from l have "l \<in> set (filter ?P ?ls)" by simp
  with one have "l' = l" by simp
  have "filter ?P (map (line_content e (msg_text data)) ?ls) =
        map (line_content e (msg_text data)) (filter ?P ?ls)"
    by (simp add: filter_map comp_def)
  with one \<open>l' = l\<close> l
    handleTranscript_partial_existing(2) [OF assms(2,3), of time]
  show ?thesis by (simp add: interim_lines_def)
qed

text \<open>
  Claim C3. After any sequence of transcript messages the container has at most one
  interim line for any speaker. A partial message for a speaker who has an interim
  line changes the text of that line in place: the container keeps the same lines in
  the same order, \<^verbatim>\<open>interimElements\<close> is unchanged, and the speaker's one interim line
  shows the new text. A final message for a speaker removes that speaker's interim line
  and clears the speaker's entry of \<^verbatim>\<open>interimElements\<close>, and the committed line is
  appended after what remains (speaker labels as in claim C2).
\<close>

theorem one_interim_line_per_speaker:
  "transcript_ok t \<longrightarrow>
     length (interim_lines (handleTranscripts msgs t) s) \<le> 1 \<and>
     (\<not> is_final data \<and> interimElements t (speaker data) = Some e \<longrightarrow>
        lines_of (transcriptContainer (snd (handleTranscript data time t))) =
          map (line_content e (msg_text data)) (lines_of (transcriptContainer t)) \<and>
        interimElements (snd (handleTranscript data time t)) = interimElements t \<and>
        map content (interim_lines (snd (handleTranscript data time t)) (speaker data)) =
          [msg_text data]) \<and>
     (is_final data \<and> plain_speaker (speaker data) \<longrightarrow>
        lines_of (transcriptContainer (snd (handleTranscript data time t))) =
          filter (\<lambda>l. \<not> (kind l = Interim \<and> label l = speaker data))
            (lines_of (transcriptContainer t)) @ [final_line data time (nextElement t)] \<and>
        interim_lines (snd (handleTranscript data time t)) (speaker data) = [] \<and>
        interimElements (snd (handleTranscript data time t)) (speaker data) = None)"
proof
  assume ok: "transcript_ok t"
  from handleTranscripts_ok [OF ok, of msgs]
  have "lines_ok (lines_of (transcriptContainer (handleTranscripts msgs t)))
          (interimElements (handleTranscripts msgs t)) (nextElement (handleTranscripts msgs t))"
    by (simp add: transcript_ok_def)
  from lines_ok_at_most_one [OF this, of s]
  have one: "length (interim_lines (handleTranscripts msgs t) s) \<le> 1"
    by (simp only: interim_lines_def)
  have partial: "\<not> is_final data \<and> interimElements t (speaker data) = Some e \<longrightarrow>
        lines_of (transcriptContainer (snd (handleTranscript data time t))) =
          map (line_content e (msg_text data)) (lines_of (transcriptContainer t)) \<and>
        interimElements (snd (handleTranscript data time t)) = interimElements t \<and>
        map content (interim_lines (snd (handleTranscript data time t)) (speaker data)) =
          [msg_text data]"
    using handleTranscript_partial_existing(2,3) [of data t e time]
      interim_lines_after_partial [OF ok, of data e time] by blast
  have final: "is_final data \<and> plain_speaker (speaker data) \<longrightarrow>
        lines_of (transcriptContainer (snd (handleTranscript data time t))) =
          filter (\<lambda>l. \<not> (kind l = Interim \<and> label l = speaker data))
            (lines_of (transcriptContainer t)) @ [final_line data time (nextElement t)] \<and>
        interim_lines (snd (handleTranscript data time t)) (speaker data) = [] \<and>
        interimElements (snd (handleTranscript data time t)) (speaker data) = None"
    using interim_lines_after_final [OF ok, of data time] by blast
  from one partial final
  show "length (interim_lines (handleTranscripts msgs t) s) \<le> 1 \<and>
     (\<not> is_final data \<and> interimElements t (speaker data) = Some e \<longrightarrow>
        lines_of (transcriptContainer (snd (handleTranscript data time t))) =
          map (line_content e (msg_text data)) (lines_of (transcriptContainer t)) \<and>
        interimElements (snd (handleTranscript data time t)) = interimElements t \<and>
        map content (interim_lines (snd (handleTranscript data time t)) (speaker data)) =
          [msg_text data]) \<and>
     (is_final data \<and> plain_speaker (speaker data) \<longrightarrow>
        lines_of (transcriptContainer (snd (handleTranscript data time t))) =
          filter (\<lambda>l. \<not> (kind l = Interim \<and> label l = speaker data))
            (lines_of (transcriptContainer t)) @ [final_line data time (nextElement t)] \<and>
        interim_lines (snd (handleTranscript data time t)) (speaker data) = [] \<and>
        interimElements (snd (handleTranscript data time t)) (speaker data) = None)"
    by (intro conjI)
qed

lemma sample_transcript_first:
  "handleTranscripts (take 1 sample_transcript) init_transcript =
     \<lparr>transcriptContainer =
        [Line \<lparr>element = 0, kind = Interim, speakerClass = ''speaker-client'',
               timestamp = ''10:00:01'', label = ''Client'', content = ''We want''\<rparr>],
      interimElements = [''Client'' \<mapsto> 0], nextElement = 1\<rparr>"
  by (simp add: handleTranscripts_def handleTranscript_def sample_transcript_def
      init_transcript_def removeEmptyState_def get_property_def object_prototype_keys_def
      line_content_def Let_def)

theorem one_interim_line_per_speaker_witness:
  "transcript_ok (handleTranscripts (take 1 sample_transcript) init_transcript) \<and>
   \<not> is_final client_partial \<and>
   interimElements (handleTranscripts (take 1 sample_transcript) init_transcript)
     (speaker client_partial) = Some 0 \<and>
   map content (interim_lines (snd (handleTranscript client_partial ''10:00:03''
      (handleTranscripts (take 1 sample_transcript) init_transcript))) ''Client'') =
     [''We want to save''] \<and>
   is_final client_final \<and> plain_speaker (speaker client_final) \<and>
   interim_lines (snd (handleTranscript client_final ''10:00:04''
      (handleTranscripts (take 1 sample_transcript) init_transcript))) ''Client'' = [] \<and>
   map element (lines_of (transcriptContainer (snd (handleTranscript client_final ''10:00:04''
      (handleTranscripts (take 1 sample_transcript) init_transcript))))) = [1]"
proof -
  let ?t = "handleTranscripts (take 1 sample_transcript) init_transcript"
  have ok: "transcript_ok ?t" using init_transcript_ok by (rule handleTranscripts_ok)
  have p: "\<not> is_final client_partial" "speaker client_partial = ''Client''"
    "msg_text client_partial = ''We want to save''"
    by (simp_all add: client_partial_def)
  have f: "is_final client_final" "speaker client_final = ''Client''"
    "plain_speaker (speaker client_final)"
    by (simp_all add: client_final_def plain_speaker_def object_prototype_keys_def)
  have e: "interimElements ?t ''Client'' = Some 0" "nextElement ?t = 1"
    "lines_of (transcriptContainer ?t) =
       [\<lparr>element = 0, kind = Interim, speakerClass = ''speaker-client'',
               timestamp = ''10:00:01'', label = ''Client'', content = ''We want''\<rparr>]"
    unfolding sample_transcript_first by simp_all
  from one_interim_line_per_speaker [of ?t "[]" "''Client''" client_partial 0 "''10:00:03''"]
    one_interim_line_per_speaker [of ?t "[]" "''Client''" client_final 0 "''10:00:04''"]
  show ?thesis using ok p f e by (simp add: final_line_def)
qed

end
